theory Spec2Isabelle
  imports
    Complex_Main
    "HOL-Library.Multiset"
    "HOL-Library.Sublist"
    "HOL-Library.Char_ord"
    "HOL-Library.List_Lexorder"
    "HOL-Library.Option_ord"
    "HOL-Library.Product_Lexorder"
begin

section \<open>The in-memory store for FCD points (vis/backend/data.py)\<close>

text \<open>
  The store keeps a Polars data frame with the columns \<^verbatim>\<open>timestep_time\<close>,
  \<^verbatim>\<open>vehicle_id\<close>, \<^verbatim>\<open>vehicle_x\<close> and \<^verbatim>\<open>vehicle_y\<close>. A frame is modelled as
  the list of its rows, in frame order. Every cell may be null (the reader maps the
  empty cell, \<^verbatim>\<open>NaN\<close> and \<^verbatim>\<open>nan\<close> to null), so every field is an option.

  Numbers: a Float64 cell holds a finite value, a real, and comparisons of cells are
  exact. The one arithmetic operation of the store is the division in the sampler; its
  result is rounded, so it is a parameter \<open>fdiv\<close> of the sampler and of the query. The
  general theorems assume nothing of it; the scenarios use that dividing by one is exact
  (\<open>float64_div\<close>). An Int64 is an integer from \<open>- 2\<^sup>6\<^sup>3\<close> up to \<open>2\<^sup>6\<^sup>3 - 1\<close>.
\<close>

subsection \<open>Data\<close>

record row =
  timestep_time :: "real option"
  vehicle_id :: "string option"
  vehicle_x :: "real option"
  vehicle_y :: "real option"

type_synonym frame = "row list"

text \<open>What \<^verbatim>\<open>pl.read_csv\<close> hands back: the column names of the header and the rows.\<close>

record source =
  src_columns :: "string list"
  src_rows :: frame

datatype error =
  ValueError string
  | TypeError
  | InvalidOperationError

record QueryStats =
  rows :: nat
  vehicles :: nat
  truncated :: bool
  sample_every :: real
  max_points :: int

record TrafficData =
  csv_path :: string
  df :: frame
  min_time :: real
  max_time :: real
  row_count :: nat
  vehicle_count :: nat

text \<open>The dictionaries of the two point payloads, and the one \<^verbatim>\<open>trajectory\<close> returns.\<close>

record traj_point =
  pt_t :: real
  pt_lon :: real
  pt_lat :: real

record query_point = traj_point +
  pt_vehicleId :: string

record trajectory_result =
  tr_vehicleId :: string
  tr_truncated :: bool
  tr_pointCount :: nat
  tr_coordinates :: "(real \<times> real) list"
  tr_points :: "traj_point list"

subsection \<open>Polars expressions over nullable cells\<close>

text \<open>
  A comparison with a null operand is null; \<^verbatim>\<open>&\<close> is the three-valued conjunction;
  \<^verbatim>\<open>filter\<close> keeps the rows whose mask is true, so a null mask drops the row.
\<close>

definition pl_ge :: "real option \<Rightarrow> real \<Rightarrow> bool option" where
  "pl_ge c v = (case c of None \<Rightarrow> None | Some a \<Rightarrow> Some (a \<ge> v))"

definition pl_le :: "real option \<Rightarrow> real \<Rightarrow> bool option" where
  "pl_le c v = (case c of None \<Rightarrow> None | Some a \<Rightarrow> Some (a \<le> v))"

definition pl_eq :: "string option \<Rightarrow> string \<Rightarrow> bool option" where
  "pl_eq c v = (case c of None \<Rightarrow> None | Some a \<Rightarrow> Some (a = v))"

definition is_in :: "string option \<Rightarrow> string list \<Rightarrow> bool option" where
  "is_in c vs = (case c of None \<Rightarrow> None | Some a \<Rightarrow> Some (a \<in> set vs))"

definition is_not_null :: "'a option \<Rightarrow> bool option" where
  "is_not_null c = Some (c \<noteq> None)"

fun pl_and :: "bool option \<Rightarrow> bool option \<Rightarrow> bool option" where
  "pl_and (Some False) _ = Some False"
| "pl_and _ (Some False) = Some False"
| "pl_and (Some True) (Some True) = Some True"
| "pl_and _ _ = None"

definition pl_filter :: "(row \<Rightarrow> bool option) \<Rightarrow> frame \<Rightarrow> frame" where
  "pl_filter keep q = filter (\<lambda>r. keep r = Some True) q"

text \<open>\<^verbatim>\<open>float(x)\<close> on a cell read back by \<^verbatim>\<open>to_dicts\<close>: a null cell is
  \<^verbatim>\<open>None\<close>, and \<^verbatim>\<open>float(None)\<close> raises TypeError. \<^verbatim>\<open>str(None)\<close> is the
  text \<^verbatim>\<open>None\<close>.\<close>

definition py_float :: "real option \<Rightarrow> error + real" where
  "py_float c = (case c of None \<Rightarrow> Inl TypeError | Some a \<Rightarrow> Inr a)"

definition py_str :: "string option \<Rightarrow> string" where
  "py_str c = (case c of None \<Rightarrow> ''None'' | Some s \<Rightarrow> s)"

text \<open>A list comprehension whose body may raise: the first error ends it.\<close>

fun map_err :: "('a \<Rightarrow> error + 'b) \<Rightarrow> 'a list \<Rightarrow> error + 'b list" where
  "map_err f [] = Inr []"
| "map_err f (x # xs) =
     (case f x of
        Inl e \<Rightarrow> Inl e
      | Inr y \<Rightarrow> (case map_err f xs of Inl e \<Rightarrow> Inl e | Inr ys \<Rightarrow> Inr (y # ys)))"

text \<open>\<^verbatim>\<open>Series.unique\<close> followed by a sort, and \<^verbatim>\<open>n_unique\<close>: null counts as a
  value of its own. \<^verbatim>\<open>min\<close> and \<^verbatim>\<open>max\<close> skip nulls and are null on a
  column without a value.\<close>

definition n_unique :: "'a list \<Rightarrow> nat" where
  "n_unique c = length (remdups c)"

definition col_min :: "real option list \<Rightarrow> real option" where
  "col_min c = (case List.map_filter id c of [] \<Rightarrow> None | a # as \<Rightarrow> Some (fold min as a))"

definition col_max :: "real option list \<Rightarrow> real option" where
  "col_max c = (case List.map_filter id c of [] \<Rightarrow> None | a # as \<Rightarrow> Some (fold max as a))"

subsection \<open>Loading\<close>

text \<open>
  \<^verbatim>\<open>df.sort(["vehicle_id", "timestep_time"])\<close> sorts ascending with nulls first.
  The call leaves \<^verbatim>\<open>maintain_order\<close> at its default, false, so Polars promises a
  sorted rearrangement of the rows and nothing about rows with equal keys. The sort is
  therefore a parameter \<open>srt\<close> of the loader, and \<open>polars_sort\<close> is what is known of it.
\<close>

definition row_key :: "row \<Rightarrow> string option \<times> real option" where
  "row_key r = (vehicle_id r, timestep_time r)"

definition polars_sort :: "(frame \<Rightarrow> frame) \<Rightarrow> bool" where
  "polars_sort srt = (\<forall>q. mset (srt q) = mset q \<and> sorted (map row_key (srt q)))"

definition has_lon_lat :: "row \<Rightarrow> bool option" where
  "has_lon_lat r = pl_and (is_not_null (vehicle_x r)) (is_not_null (vehicle_y r))"

definition load :: "(frame \<Rightarrow> frame) \<Rightarrow> source \<Rightarrow> error + frame" where
  "load srt src =
     (if ''timestep_time'' \<notin> set (src_columns src) \<or> ''vehicle_id'' \<notin> set (src_columns src)
      then Inl (ValueError ''CSV missing required columns: timestep_time, vehicle_id'')
      else if ''vehicle_x'' \<notin> set (src_columns src) \<or> ''vehicle_y'' \<notin> set (src_columns src)
      then Inl (ValueError ''CSV missing required columns: vehicle_x, vehicle_y'')
      else Inr (srt (pl_filter has_lon_lat (src_rows src))))"

text \<open>The constructor \<^verbatim>\<open>TrafficData.__init__\<close>.\<close>

definition TrafficData_init :: "(frame \<Rightarrow> frame) \<Rightarrow> string \<Rightarrow> source \<Rightarrow> error + TrafficData" where
  "TrafficData_init srt path src =
     (case load srt src of
        Inl e \<Rightarrow> Inl e
      | Inr d \<Rightarrow>
          (case py_float (col_min (map timestep_time d)) of
             Inl e \<Rightarrow> Inl e
           | Inr lo \<Rightarrow>
               (case py_float (col_max (map timestep_time d)) of
                  Inl e \<Rightarrow> Inl e
                | Inr hi \<Rightarrow>
                    Inr \<lparr>csv_path = path, df = d, min_time = lo, max_time = hi,
                         row_count = length d,
                         vehicle_count = n_unique (map vehicle_id d)\<rparr>)))"

subsection \<open>Filters\<close>

definition apply_bbox :: "frame \<Rightarrow> real list option \<Rightarrow> error + frame" where
  "apply_bbox q bbox =
     (case bbox of
        None \<Rightarrow> Inr q
      | Some [west, south, east, north] \<Rightarrow>
          Inr (pl_filter (\<lambda>r.
                 pl_and (pl_and (pl_and (pl_and (pl_and
                   (is_not_null (vehicle_x r))
                   (is_not_null (vehicle_y r)))
                   (pl_ge (vehicle_x r) west))
                   (pl_le (vehicle_x r) east))
                   (pl_ge (vehicle_y r) south))
                   (pl_le (vehicle_y r) north)) q)
      | Some _ \<Rightarrow> Inl (ValueError ''wrong number of values to unpack''))"

definition apply_time :: "frame \<Rightarrow> real \<Rightarrow> real \<Rightarrow> frame" where
  "apply_time q time_start time_end =
     pl_filter (\<lambda>r. pl_and (pl_ge (timestep_time r) time_start)
                           (pl_le (timestep_time r) time_end)) q"

definition apply_ids :: "frame \<Rightarrow> string list option \<Rightarrow> frame" where
  "apply_ids q vehicle_ids =
     (case vehicle_ids of
        None \<Rightarrow> q
      | Some [] \<Rightarrow> q
      | Some ids \<Rightarrow> pl_filter (\<lambda>r. is_in (vehicle_id r) ids) q)"

subsection \<open>Sampling\<close>

text \<open>
  \<^verbatim>\<open>group_by(keys, maintain_order=True).agg(pl.all().first())\<close>: the groups come in
  the order in which their keys first appear, and each group gives the first of its
  rows. A null key is a key like any other.
\<close>

fun first_keys :: "'k list \<Rightarrow> 'k list \<Rightarrow> 'k list" where
  "first_keys seen [] = []"
| "first_keys seen (k # ks) =
     (if k \<in> set seen then first_keys seen ks else k # first_keys (k # seen) ks)"

definition group_by :: "('a \<Rightarrow> 'k) \<Rightarrow> 'a list \<Rightarrow> ('k \<times> 'a list) list" where
  "group_by key q = map (\<lambda>k. (k, filter (\<lambda>r. key r = k) q)) (first_keys [] (map key q))"

definition agg_first :: "('k \<times> 'a list) list \<Rightarrow> 'a list" where
  "agg_first gs = concat (map (\<lambda>(k, g). take 1 g) gs)"

text \<open>
  \<^verbatim>\<open>(pl.col("timestep_time") / sample_every).floor().cast(pl.Int64)\<close> on one cell.
  The quotient is the Float64 quotient \<open>fdiv\<close>. The cast is strict: a value outside
  Int64 makes Polars raise InvalidOperationError (an infinite quotient is such a value).
  A null cell stays null.
\<close>

definition bucket :: "(real \<Rightarrow> real \<Rightarrow> real) \<Rightarrow> real \<Rightarrow> real option \<Rightarrow> error + int option" where
  "bucket fdiv every c =
     (case c of
        None \<Rightarrow> Inr None
      | Some t \<Rightarrow>
          (let b = \<lfloor>fdiv t every\<rfloor>
           in if - (2 ^ 63) \<le> b \<and> b < 2 ^ 63 then Inr (Some b)
              else Inl InvalidOperationError))"

text \<open>\<^verbatim>\<open>with_columns(... .alias("_bucket"))\<close>: every row with its bucket; the
  expression raises when the cast fails on a row.\<close>

definition with_bucket ::
  "(real \<Rightarrow> real \<Rightarrow> real) \<Rightarrow> real \<Rightarrow> frame \<Rightarrow> error + (row \<times> int option) list" where
  "with_bucket fdiv every q =
     map_err (\<lambda>r. case bucket fdiv every (timestep_time r) of
                    Inl e \<Rightarrow> Inl e
                  | Inr b \<Rightarrow> Inr (r, b)) q"

text \<open>\<^verbatim>\<open>_sample\<close>: group the bucketed rows by vehicle and bucket, keep the first
  row of each group, drop the bucket column.\<close>

definition sample :: "(real \<Rightarrow> real \<Rightarrow> real) \<Rightarrow> frame \<Rightarrow> real \<Rightarrow> error + frame" where
  "sample fdiv q every =
     (if every \<le> 0 then Inr q
      else case with_bucket fdiv every q of
             Inl e \<Rightarrow> Inl e
           | Inr q2 \<Rightarrow>
               Inr (map fst (agg_first (group_by (\<lambda>(r, b). (vehicle_id r, b)) q2))))"

subsection \<open>The query facade\<close>

text \<open>The cap both operations apply: \<^verbatim>\<open>if max_points and max_points > 0 and
  q.height > max_points: q = q.head(max_points); truncated = True\<close>.\<close>

definition cap :: "frame \<Rightarrow> int \<Rightarrow> frame \<times> bool" where
  "cap q n =
     (if n \<noteq> 0 \<and> n > 0 \<and> int (length q) > n then (take (nat n) q, True) else (q, False))"

definition traj_coord :: "row \<Rightarrow> error + (real \<times> real)" where
  "traj_coord p =
     (case py_float (vehicle_x p) of
        Inl e \<Rightarrow> Inl e
      | Inr x \<Rightarrow> (case py_float (vehicle_y p) of Inl e \<Rightarrow> Inl e | Inr y \<Rightarrow> Inr (x, y)))"

definition traj_pt :: "row \<Rightarrow> error + traj_point" where
  "traj_pt p =
     (case py_float (timestep_time p) of
        Inl e \<Rightarrow> Inl e
      | Inr t \<Rightarrow>
          (case py_float (vehicle_x p) of
             Inl e \<Rightarrow> Inl e
           | Inr x \<Rightarrow>
               (case py_float (vehicle_y p) of
                  Inl e \<Rightarrow> Inl e
                | Inr y \<Rightarrow> Inr \<lparr>pt_t = t, pt_lon = x, pt_lat = y\<rparr>)))"

definition trajectory ::
  "TrafficData \<Rightarrow> string \<Rightarrow> real option \<Rightarrow> real option \<Rightarrow> int \<Rightarrow> error + trajectory_result" where
  "trajectory td vid time_start time_end n =
     (let q = pl_filter (\<lambda>r. pl_eq (vehicle_id r) vid) (df td);
          q = pl_filter has_lon_lat q;
          q = (case (time_start, time_end) of
                 (Some s, Some e) \<Rightarrow> apply_time q s e
               | _ \<Rightarrow> q);
          (q, trunc) = cap q n
      in case map_err traj_coord q of
           Inl e \<Rightarrow> Inl e
         | Inr coords \<Rightarrow>
             (case map_err traj_pt q of
                Inl e \<Rightarrow> Inl e
              | Inr pts \<Rightarrow>
                  Inr \<lparr>tr_vehicleId = vid, tr_truncated = trunc,
                       tr_pointCount = length coords, tr_coordinates = coords,
                       tr_points = pts\<rparr>))"

definition query_pt :: "row \<Rightarrow> error + query_point" where
  "query_pt p =
     (case py_float (timestep_time p) of
        Inl e \<Rightarrow> Inl e
      | Inr t \<Rightarrow>
          (case py_float (vehicle_x p) of
             Inl e \<Rightarrow> Inl e
           | Inr x \<Rightarrow>
               (case py_float (vehicle_y p) of
                  Inl e \<Rightarrow> Inl e
                | Inr y \<Rightarrow>
                    Inr \<lparr>pt_t = t, pt_lon = x, pt_lat = y,
                         pt_vehicleId = py_str (vehicle_id p)\<rparr>)))"

definition query ::
  "(real \<Rightarrow> real \<Rightarrow> real) \<Rightarrow> TrafficData \<Rightarrow> real \<Rightarrow> real \<Rightarrow> real list option \<Rightarrow>
     string list option \<Rightarrow> int \<Rightarrow> real
     \<Rightarrow> error + (query_point list \<times> string list \<times> QueryStats)" where
  "query fdiv td time_start time_end bbox vehicle_ids n every =
     (let q = apply_time (df td) time_start time_end
      in case apply_bbox q bbox of
           Inl e \<Rightarrow> Inl e
         | Inr q \<Rightarrow>
             (let q = apply_ids q vehicle_ids;
                  q = pl_filter has_lon_lat q
              in case sample fdiv q every of
                   Inl e \<Rightarrow> Inl e
                 | Inr q \<Rightarrow>
                     (let vehicle_ids_hit =
                            (if length q > 0 then remdups (map vehicle_id q) else []);
                          vehicle_ids_hit = sort (map py_str vehicle_ids_hit);
                          (q, trunc) = cap q n
                      in case map_err query_pt q of
                           Inl e \<Rightarrow> Inl e
                         | Inr points \<Rightarrow>
                             Inr (points, vehicle_ids_hit,
                                  \<lparr>rows = length points,
                                   vehicles = length vehicle_ids_hit,
                                   truncated = trunc, sample_every = every,
                                   max_points = n\<rparr>))))"


subsection \<open>Reference formulations\<close>

text \<open>
  The sampler as an ordered scan that remembers the keys it has seen and keeps the first
  row of each key. The data-frame pipeline above is proved equal to it wherever the cast
  succeeds on every row.
\<close>

fun scan_first :: "('a \<Rightarrow> 'k) \<Rightarrow> 'k list \<Rightarrow> 'a list \<Rightarrow> 'a list" where
  "scan_first key seen [] = []"
| "scan_first key seen (r # rs) =
     (if key r \<in> set seen then scan_first key seen rs
      else r # scan_first key (key r # seen) rs)"

text \<open>The key the sampler groups by: the vehicle and \<open>\<lfloor>time / w\<rfloor>\<close>, the quotient being the
  Float64 quotient. A frame is castable when every bucket of it is an Int64.\<close>

definition sample_key ::
  "(real \<Rightarrow> real \<Rightarrow> real) \<Rightarrow> real \<Rightarrow> row \<Rightarrow> string option \<times> int option" where
  "sample_key fdiv w r = (vehicle_id r, map_option (\<lambda>t. \<lfloor>fdiv t w\<rfloor>) (timestep_time r))"

definition castable :: "(real \<Rightarrow> real \<Rightarrow> real) \<Rightarrow> real \<Rightarrow> frame \<Rightarrow> bool" where
  "castable fdiv w q =
     list_all (\<lambda>r. case timestep_time r of
                      None \<Rightarrow> True
                    | Some t \<Rightarrow> - (2 ^ 63) \<le> \<lfloor>fdiv t w\<rfloor> \<and> \<lfloor>fdiv t w\<rfloor> < 2 ^ 63) q"

text \<open>What is used of Float64 division: dividing by one is exact.\<close>

definition float64_div :: "(real \<Rightarrow> real \<Rightarrow> real) \<Rightarrow> bool" where
  "float64_div fdiv = (\<forall>x. fdiv x 1 = x)"

text \<open>The predicates of the filter pipeline as the specification words them, on one row.\<close>

definition in_time :: "real \<Rightarrow> real \<Rightarrow> row \<Rightarrow> bool" where
  "in_time s e r = (case timestep_time r of None \<Rightarrow> False | Some t \<Rightarrow> s \<le> t \<and> t \<le> e)"

definition in_bbox :: "real list option \<Rightarrow> row \<Rightarrow> bool" where
  "in_bbox bbox r =
     (case bbox of
        Some [west, south, east, north] \<Rightarrow>
          (case (vehicle_x r, vehicle_y r) of
             (Some x, Some y) \<Rightarrow> west \<le> x \<and> x \<le> east \<and> south \<le> y \<and> y \<le> north
           | _ \<Rightarrow> False)
      | _ \<Rightarrow> True)"

definition in_ids :: "string list option \<Rightarrow> row \<Rightarrow> bool" where
  "in_ids vehicle_ids r =
     (case vehicle_ids of
        None \<Rightarrow> True
      | Some [] \<Rightarrow> True
      | Some ids \<Rightarrow> (case vehicle_id r of None \<Rightarrow> False | Some v \<Rightarrow> v \<in> set ids))"

definition located :: "row \<Rightarrow> bool" where
  "located r = (vehicle_x r \<noteq> None \<and> vehicle_y r \<noteq> None)"

definition matches :: "real \<Rightarrow> real \<Rightarrow> real list option \<Rightarrow> string list option \<Rightarrow> row \<Rightarrow> bool" where
  "matches s e bbox vehicle_ids r =
     (in_time s e r \<and> in_bbox bbox r \<and> in_ids vehicle_ids r \<and> located r)"

text \<open>A bounding box is well formed when it is absent or has its four numbers.\<close>

definition bbox_ok :: "real list option \<Rightarrow> bool" where
  "bbox_ok bbox = (case bbox of None \<Rightarrow> True | Some b \<Rightarrow> length b = 4)"

text \<open>The condition under which \<^verbatim>\<open>trajectory\<close> selects a row.\<close>

definition traj_match :: "string \<Rightarrow> real option \<Rightarrow> real option \<Rightarrow> row \<Rightarrow> bool" where
  "traj_match vid s e r =
     (vehicle_id r = Some vid \<and> located r \<and>
      (case (s, e) of (Some a, Some b) \<Rightarrow> in_time a b r | _ \<Rightarrow> True))"

text \<open>The rows \<^verbatim>\<open>trajectory\<close> selects before it truncates, and what a coordinate pair
  of its line string shows.\<close>

definition traj_view :: "TrafficData \<Rightarrow> string \<Rightarrow> real option \<Rightarrow> real option \<Rightarrow> frame" where
  "traj_view td vid s e = filter (traj_match vid s e) (df td)"

definition coord_of :: "real \<times> real \<Rightarrow> row \<Rightarrow> bool" where
  "coord_of c r = (vehicle_x r = Some (fst c) \<and> vehicle_y r = Some (snd c))"

text \<open>A point of a payload shows a row: same time, position and vehicle.\<close>

definition shows_row :: "query_point \<Rightarrow> row \<Rightarrow> bool" where
  "shows_row p r =
     (timestep_time r = Some (pt_t p) \<and> vehicle_x r = Some (pt_lon p) \<and>
      vehicle_y r = Some (pt_lat p) \<and> pt_vehicleId p = py_str (vehicle_id r))"

definition traj_shows_row :: "traj_point \<Rightarrow> row \<Rightarrow> bool" where
  "traj_shows_row p r =
     (timestep_time r = Some (pt_t p) \<and> vehicle_x r = Some (pt_lon p) \<and>
      vehicle_y r = Some (pt_lat p))"

subsection \<open>Scenarios\<close>

definition mk_row :: "real \<Rightarrow> string \<Rightarrow> real \<Rightarrow> real \<Rightarrow> row" where
  "mk_row t v x y =
     \<lparr>timestep_time = Some t, vehicle_id = Some v, vehicle_x = Some x, vehicle_y = Some y\<rparr>"

definition mk_table :: "frame \<Rightarrow> real \<Rightarrow> real \<Rightarrow> TrafficData" where
  "mk_table d lo hi =
     \<lparr>csv_path = ''fcd_geo.csv'', df = d, min_time = lo, max_time = hi,
      row_count = length d, vehicle_count = n_unique (map vehicle_id d)\<rparr>"

text \<open>Scenario A: one vehicle at the times 0, 0.5, 1 and 1.5, its longitude increasing.\<close>

definition scenario_A :: TrafficData where
  "scenario_A =
     mk_table [mk_row 0 ''v1'' 10 50, mk_row 0.5 ''v1'' 11 50,
               mk_row 1 ''v1'' 12 50, mk_row 1.5 ''v1'' 13 50] 0 1.5"

text \<open>A table on which the order of sampling and truncation shows: sampled first, two
  rows are left and a limit of two truncates nothing; truncated first, one row would be
  left.\<close>

definition scenario_order :: TrafficData where
  "scenario_order =
     mk_table [mk_row 0 ''v1'' 10 50, mk_row 0.5 ''v1'' 11 50, mk_row 0 ''v2'' 12 51] 0 0.5"

text \<open>Scenario B: two vehicles with one row each.\<close>

definition scenario_B :: TrafficData where
  "scenario_B = mk_table [mk_row 0 ''v1'' 10 50, mk_row 0 ''v2'' 11 51] 0 0"

text \<open>A source with all four columns in which one row of vehicle \<^verbatim>\<open>v1\<close> has an
  empty time cell, and the table the constructor builds from it.\<close>

definition null_time_table :: TrafficData where
  "null_time_table =
     mk_table [\<lparr>timestep_time = None, vehicle_id = Some ''v1'', vehicle_x = Some 10,
                 vehicle_y = Some 50\<rparr>,
               mk_row 1 ''v1'' 11 50] 1 1"

definition null_time_source :: source where
  "null_time_source =
     \<lparr>src_columns = [''timestep_time'', ''vehicle_id'', ''vehicle_x'', ''vehicle_y''],
      src_rows = [mk_row 1 ''v1'' 11 50,
                  \<lparr>timestep_time = None, vehicle_id = Some ''v1'', vehicle_x = Some 10,
                   vehicle_y = Some 50\<rparr>]\<rparr>"

text \<open>The four columns the loader requires.\<close>

definition required_columns :: "string list" where
  "required_columns = [''timestep_time'', ''vehicle_id'', ''vehicle_x'', ''vehicle_y'']"

text \<open>Scenario E: a source without the column \<^verbatim>\<open>vehicle_y\<close>.\<close>

definition scenario_E :: source where
  "scenario_E =
     \<lparr>src_columns = [''timestep_time'', ''vehicle_id'', ''vehicle_x''],
      src_rows = [\<lparr>timestep_time = Some 0, vehicle_id = Some ''v1'', vehicle_x = Some 10,
                   vehicle_y = None\<rparr>]\<rparr>"

text \<open>A source in which the time step 1 has no vehicle, so that its row has neither a
  vehicle id nor a position; and a source that has only such a row.\<close>

definition gap_source :: source where
  "gap_source =
     \<lparr>src_columns = required_columns,
      src_rows = [mk_row 0 ''v2'' 11 51,
                  \<lparr>timestep_time = Some 1, vehicle_id = None, vehicle_x = None,
                   vehicle_y = None\<rparr>,
                  mk_row 0 ''v1'' 10 50]\<rparr>"

definition idle_source :: source where
  "idle_source =
     \<lparr>src_columns = required_columns,
      src_rows = [\<lparr>timestep_time = Some 1, vehicle_id = None, vehicle_x = None,
                   vehicle_y = None\<rparr>]\<rparr>"

section \<open>Properties\<close>

subsection \<open>Masks\<close>

lemma pl_and_True: "pl_and a b = Some True \<longleftrightarrow> a = Some True \<and> b = Some True"
  by (cases "(a, b)" rule: pl_and.cases) auto

lemma pl_ge_True: "pl_ge c v = Some True \<longleftrightarrow> (\<exists>a. c = Some a \<and> v \<le> a)"
  by (auto simp: pl_ge_def split: option.splits)

lemma pl_le_True: "pl_le c v = Some True \<longleftrightarrow> (\<exists>a. c = Some a \<and> a \<le> v)"
  by (auto simp: pl_le_def split: option.splits)

lemma pl_eq_True: "pl_eq c v = Some True \<longleftrightarrow> c = Some v"
  by (auto simp: pl_eq_def split: option.splits)

lemma is_in_True: "is_in c vs = Some True \<longleftrightarrow> (\<exists>a. c = Some a \<and> a \<in> set vs)"
  by (auto simp: is_in_def split: option.splits)

lemma is_not_null_True: "is_not_null c = Some True \<longleftrightarrow> c \<noteq> None"
  by (simp add: is_not_null_def)

lemmas mask_True =
  pl_and_True pl_ge_True pl_le_True pl_eq_True is_in_True is_not_null_True

subsection \<open>The sampler is the ordered scan\<close>

lemma set_first_keys: "set (first_keys seen ks) = set ks - set seen"
  by (induction ks arbitrary: seen) auto

lemma groups_skip:
  "\<forall>k\<in>set ks. k \<noteq> key r \<Longrightarrow>
   map (\<lambda>k. take 1 (filter (\<lambda>x. key x = k) (r # rs))) ks
     = map (\<lambda>k. take 1 (filter (\<lambda>x. key x = k) rs)) ks"
  by (induction ks) auto

lemma groups_scan:
  "concat (map (\<lambda>k. take 1 (filter (\<lambda>r. key r = k) q)) (first_keys seen (map key q)))
     = scan_first key seen q"
proof (induction q arbitrary: seen)
  case Nil
  show ?case by simp
next
  case (Cons r rs)
  let ?g = "\<lambda>q k. take 1 (filter (\<lambda>x. key x = k) q)"
  show ?case
  proof (cases "key r \<in> set seen")
    case True
    let ?ks = "first_keys seen (map key rs)"
    have "\<forall>k\<in>set ?ks. k \<noteq> key r"
      using True by (auto simp: set_first_keys)
    then have eq: "map (?g (r # rs)) ?ks = map (?g rs) ?ks"
      by (rule groups_skip)
    have "concat (map (?g (r # rs)) (first_keys seen (map key (r # rs))))
        = concat (map (?g (r # rs)) ?ks)"
      using True by (simp del: filter.simps)
    also have "\<dots> = concat (map (?g rs) ?ks)"
      by (simp only: eq)
    also have "\<dots> = scan_first key seen rs"
      by (rule Cons.IH)
    finally show ?thesis using True by simp
  next
    case False
    let ?ks = "first_keys (key r # seen) (map key rs)"
    have "\<forall>k\<in>set ?ks. k \<noteq> key r"
      by (auto simp: set_first_keys)
    then have eq: "map (?g (r # rs)) ?ks = map (?g rs) ?ks"
      by (rule groups_skip)
    have "concat (map (?g (r # rs)) (first_keys seen (map key (r # rs))))
        = ?g (r # rs) (key r) @ concat (map (?g (r # rs)) ?ks)"
      using False by (simp del: filter.simps)
    also have "?g (r # rs) (key r) = [r]"
      by simp
    also have "concat (map (?g (r # rs)) ?ks) = concat (map (?g rs) ?ks)"
      by (simp only: eq)
    also have "concat (map (?g rs) ?ks) = scan_first key (key r # seen) rs"
      by (rule Cons.IH)
    finally show ?thesis using False by simp
  qed
qed

lemma agg_group_scan: "agg_first (group_by key q) = scan_first key [] q"
  using groups_scan [of key q "[]"]
  by (simp add: agg_first_def group_by_def comp_def)

lemma scan_subseq: "subseq (scan_first key seen q) q"
  by (induction q arbitrary: seen) auto

lemma scan_keys: "key ` set (scan_first key seen q) = key ` set q - set seen"
  by (induction q arbitrary: seen) auto

lemma scan_distinct: "distinct (map key (scan_first key seen q))"
  by (induction q arbitrary: seen) (auto simp: scan_keys)

lemma scan_find:
  "find (\<lambda>r. key r = k) (scan_first key seen q)
     = (if k \<in> set seen then None else find (\<lambda>r. key r = k) q)"
  by (induction q arbitrary: seen) auto

lemma scan_fixed:
  "distinct (map key q) \<Longrightarrow> key ` set q \<inter> set seen = {} \<Longrightarrow> scan_first key seen q = q"
  by (induction q arbitrary: seen) auto

lemma scan_idem: "scan_first key [] (scan_first key [] q) = scan_first key [] q"
  by (rule scan_fixed) (simp_all add: scan_distinct)

lemma find_first_split:
  "find P q = Some r \<Longrightarrow> \<exists>as bs. q = as @ r # bs \<and> P r \<and> (\<forall>a\<in>set as. \<not> P a)"
proof (induction q)
  case Nil
  then show ?case by simp
next
  case (Cons a q)
  show ?case
  proof (cases "P a")
    case True
    with Cons.prems have "a = r" by simp
    with True show ?thesis by (intro exI [of _ "[]"] exI [of _ q]) auto
  next
    case False
    with Cons obtain as bs where "q = as @ r # bs" "P r" "\<forall>a\<in>set as. \<not> P a" by auto
    with False show ?thesis by (intro exI [of _ "a # as"] exI [of _ bs]) auto
  qed
qed

lemma find_distinct_key:
  "distinct (map key q) \<Longrightarrow> r \<in> set q \<Longrightarrow> find (\<lambda>x. key x = key r) q = Some r"
  by (induction q) (auto simp: image_iff)


lemma scan_subset: "set (scan_first key seen q) \<subseteq> set q"
  by (induction q arbitrary: seen) auto

lemma scan_first_map:
  "scan_first key seen (map f q) = map f (scan_first (\<lambda>x. key (f x)) seen q)"
  by (induction q arbitrary: seen) auto

subsection \<open>Comprehensions that may raise\<close>

lemma map_err_total:
  "\<forall>x\<in>set xs. \<exists>y. f x = Inr y \<and> R y x \<Longrightarrow>
   \<exists>ys. map_err f xs = Inr ys \<and> list_all2 R ys xs"
proof (induction xs)
  case Nil
  then show ?case by simp
next
  case (Cons x xs)
  then obtain ys where "map_err f xs = Inr ys" "list_all2 R ys xs" by auto
  moreover from Cons.prems obtain y where "f x = Inr y" "R y x" by auto
  ultimately show ?case by auto
qed

lemma map_err_raises:
  "\<exists>x\<in>set xs. f x = Inl e \<Longrightarrow> \<forall>x\<in>set xs. f x = Inl e \<or> (\<exists>y. f x = Inr y) \<Longrightarrow>
   map_err f xs = Inl e"
proof (induction xs)
  case Nil
  then show ?case by simp
next
  case (Cons x xs)
  show ?case
  proof (cases "f x")
    case (Inl a)
    with Cons.prems show ?thesis by auto
  next
    case (Inr y)
    with Cons.prems have "\<exists>x\<in>set xs. f x = Inl e" by auto
    with Cons have "map_err f xs = Inl e" by auto
    with Inr show ?thesis by simp
  qed
qed

lemma map_err_all:
  "\<forall>x\<in>set xs. f x = Inr (g x) \<Longrightarrow> map_err f xs = Inr (map g xs)"
  by (induction xs) auto

subsection \<open>The sampler\<close>

lemma bucket_in_range:
  "- (2 ^ 63) \<le> \<lfloor>fdiv t w\<rfloor> \<Longrightarrow> \<lfloor>fdiv t w\<rfloor> < 2 ^ 63 \<Longrightarrow>
   bucket fdiv w (Some t) = Inr (Some \<lfloor>fdiv t w\<rfloor>)"
  by (simp add: bucket_def)

lemma bucket_out_of_range:
  "\<not> (- (2 ^ 63) \<le> \<lfloor>fdiv t w\<rfloor> \<and> \<lfloor>fdiv t w\<rfloor> < 2 ^ 63) \<Longrightarrow>
   bucket fdiv w (Some t) = Inl InvalidOperationError"
  by (simp add: bucket_def)

lemma bucket_cases:
  "bucket fdiv w c = Inl InvalidOperationError \<or> (\<exists>b. bucket fdiv w c = Inr b)"
  by (cases c) (simp_all add: bucket_def Let_def)

lemma castable_iff:
  "castable fdiv w q \<longleftrightarrow>
     (\<forall>r\<in>set q. \<forall>t. timestep_time r = Some t \<longrightarrow>
        - (2 ^ 63) \<le> \<lfloor>fdiv t w\<rfloor> \<and> \<lfloor>fdiv t w\<rfloor> < 2 ^ 63)"
  by (auto simp: castable_def list_all_iff split: option.splits)

lemma castable_subset: "castable fdiv w q \<Longrightarrow> set p \<subseteq> set q \<Longrightarrow> castable fdiv w p"
  unfolding castable_iff by blast

lemma with_bucket_castable:
  assumes "castable fdiv w q"
  shows "with_bucket fdiv w q = Inr (map (\<lambda>r. (r, snd (sample_key fdiv w r))) q)"
  unfolding with_bucket_def
proof (rule map_err_all, rule ballI)
  fix r
  assume r: "r \<in> set q"
  show "(case bucket fdiv w (timestep_time r) of Inl e \<Rightarrow> Inl e | Inr b \<Rightarrow> Inr (r, b))
      = Inr (r, snd (sample_key fdiv w r))"
  proof (cases "timestep_time r")
    case None
    then show ?thesis by (simp add: bucket_def sample_key_def)
  next
    case (Some t)
    with assms r have "- (2 ^ 63) \<le> \<lfloor>fdiv t w\<rfloor>" "\<lfloor>fdiv t w\<rfloor> < 2 ^ 63"
      by (simp_all add: castable_iff)
    then have "bucket fdiv w (Some t) = Inr (Some \<lfloor>fdiv t w\<rfloor>)"
      by (rule bucket_in_range)
    with Some show ?thesis by (simp add: sample_key_def)
  qed
qed

lemma with_bucket_raises:
  assumes "\<not> castable fdiv w q"
  shows "with_bucket fdiv w q = Inl InvalidOperationError"
  unfolding with_bucket_def
proof (rule map_err_raises)
  let ?f = "\<lambda>r. case bucket fdiv w (timestep_time r) of Inl e \<Rightarrow> Inl e | Inr b \<Rightarrow> Inr (r, b)"
  from assms obtain r t where r: "r \<in> set q" "timestep_time r = Some t"
    "\<not> (- (2 ^ 63) \<le> \<lfloor>fdiv t w\<rfloor> \<and> \<lfloor>fdiv t w\<rfloor> < 2 ^ 63)"
    unfolding castable_iff by blast
  from r(3) have "bucket fdiv w (Some t) = Inl InvalidOperationError"
    by (rule bucket_out_of_range)
  with r(1,2) show "\<exists>r\<in>set q. ?f r = Inl InvalidOperationError"
    by (intro bexI [of _ r]) simp_all
  show "\<forall>r\<in>set q. ?f r = Inl InvalidOperationError \<or> (\<exists>y. ?f r = Inr y)"
  proof
    fix r
    show "?f r = Inl InvalidOperationError \<or> (\<exists>y. ?f r = Inr y)"
    proof (cases "bucket fdiv w (timestep_time r)")
      case (Inl e)
      with bucket_cases [of fdiv w "timestep_time r"] have "e = InvalidOperationError"
        by simp
      with Inl show ?thesis by simp
    next
      case (Inr b)
      then show ?thesis by simp
    qed
  qed
qed

lemma sample_eq:
  "sample fdiv q w =
     (if w \<le> 0 then Inr q
      else if castable fdiv w q then Inr (scan_first (sample_key fdiv w) [] q)
      else Inl InvalidOperationError)"
proof (cases "w \<le> 0")
  case True
  then show ?thesis by (simp add: sample_def)
next
  case w: False
  show ?thesis
  proof (cases "castable fdiv w q")
    case True
    let ?h = "\<lambda>r. (r, snd (sample_key fdiv w r))"
    let ?K = "\<lambda>(r, b). (vehicle_id r, b)"
    have k: "(\<lambda>r. ?K (?h r)) = sample_key fdiv w"
      by (simp add: fun_eq_iff sample_key_def)
    have "map fst (agg_first (group_by ?K (map ?h q)))
        = map fst (map ?h (scan_first (\<lambda>r. ?K (?h r)) [] q))"
      by (simp only: agg_group_scan scan_first_map)
    also have "\<dots> = scan_first (sample_key fdiv w) [] q"
      by (simp only: k) (simp add: comp_def)
    finally show ?thesis
      using w True by (simp add: sample_def with_bucket_castable)
  next
    case False
    with w show ?thesis by (simp add: sample_def with_bucket_raises)
  qed
qed

lemma sample_Nil: "sample fdiv [] w = Inr []"
  by (simp add: sample_eq castable_def)

lemma sample_Inr_scan:
  "0 < w \<Longrightarrow> sample fdiv q w = Inr out \<Longrightarrow>
   castable fdiv w q \<and> out = scan_first (sample_key fdiv w) [] q"
  by (auto simp: sample_eq split: if_splits)

lemma sample_Inr_subset: "sample fdiv q w = Inr out \<Longrightarrow> set out \<subseteq> set q"
  using scan_subset [of "sample_key fdiv w" "[]" q]
  by (auto simp: sample_eq split: if_splits)

lemma sample_Inr_vehicles:
  assumes "sample fdiv q w = Inr out"
  shows "vehicle_id ` set out = vehicle_id ` set q"
proof (cases "w \<le> 0")
  case True
  with assms show ?thesis by (simp add: sample_eq)
next
  case False
  with assms have out: "out = scan_first (sample_key fdiv w) [] q"
    using sample_Inr_scan [of w fdiv q out] by simp
  have "fst ` sample_key fdiv w ` set out = fst ` sample_key fdiv w ` set q"
    unfolding out using scan_keys [of "sample_key fdiv w" "[]" q] by simp
  then show ?thesis by (simp add: image_image sample_key_def)
qed

lemma sample_earliest:
  assumes w: "0 < w" and s: "sample fdiv q w = Inr out" and srt: "sorted (map row_key q)"
    and r: "r \<in> set q" and r': "r' \<in> set out"
    and k: "sample_key fdiv w r' = sample_key fdiv w r"
  shows "timestep_time r' \<le> timestep_time r"
proof -
  let ?P = "\<lambda>x. sample_key fdiv w x = sample_key fdiv w r"
  from sample_Inr_scan [OF w s] have out: "out = scan_first (sample_key fdiv w) [] q"
    by simp
  have d: "distinct (map (sample_key fdiv w) out)"
    by (simp add: out scan_distinct)
  have "find (\<lambda>x. sample_key fdiv w x = sample_key fdiv w r') out = Some r'"
    using d r' by (rule find_distinct_key)
  then have "find ?P q = Some r'"
    by (simp add: out scan_find k)
  then obtain as bs where q: "q = as @ r' # bs" and na: "\<forall>a\<in>set as. \<not> ?P a"
    using find_first_split [of ?P q r'] by blast
  from r na have "r \<in> set (r' # bs)" unfolding q by auto
  with srt have "row_key r' \<le> row_key r"
    unfolding q by (auto simp: sorted_append)
  moreover from k have "vehicle_id r' = vehicle_id r" by (simp add: sample_key_def)
  ultimately show ?thesis by (simp add: row_key_def)
qed

lemma sample_cong:
  assumes "\<forall>x. fdiv x w = gdiv x w"
  shows "sample fdiv q w = sample gdiv q w"
proof -
  have "sample_key fdiv w = sample_key gdiv w"
    using assms by (simp add: fun_eq_iff sample_key_def)
  moreover have "castable fdiv w q = castable gdiv w q"
    using assms by (simp add: castable_iff)
  ultimately show ?thesis by (simp add: sample_eq)
qed

subsection \<open>The filters and the query\<close>

lemma apply_time_filter: "apply_time q s e = filter (in_time s e) q"
  unfolding apply_time_def pl_filter_def in_time_def
  by (rule filter_cong) (auto simp: mask_True split: option.splits)

lemma has_lon_lat_filter: "pl_filter has_lon_lat q = filter located q"
  unfolding pl_filter_def has_lon_lat_def located_def
  by (rule filter_cong) (auto simp: mask_True)

lemma apply_ids_filter: "apply_ids q vehicle_ids = filter (in_ids vehicle_ids) q"
proof (cases vehicle_ids)
  case None
  then show ?thesis by (simp add: apply_ids_def in_ids_def)
next
  case (Some ids)
  show ?thesis
  proof (cases ids)
    case Nil
    with Some show ?thesis by (simp add: apply_ids_def in_ids_def)
  next
    case (Cons v vs)
    have "pl_filter (\<lambda>r. is_in (vehicle_id r) (v # vs)) q
        = filter (in_ids (Some (v # vs))) q"
      unfolding pl_filter_def in_ids_def
      by (rule filter_cong) (auto simp: mask_True split: option.splits)
    with Some Cons show ?thesis by (simp add: apply_ids_def)
  qed
qed

lemma bbox_ok_cases:
  assumes "bbox_ok bbox"
  obtains "bbox = None" | west south east north where "bbox = Some [west, south, east, north]"
proof (cases bbox)
  case None
  then show ?thesis using that by simp
next
  case (Some b)
  with assms have "length b = 4" by (simp add: bbox_ok_def)
  then obtain w s e n where "b = [w, s, e, n]"
    by (auto simp: numeral_eq_Suc length_Suc_conv)
  with Some show ?thesis using that by simp
qed

lemma apply_bbox_filter:
  assumes "bbox_ok bbox"
  shows "apply_bbox q bbox = Inr (filter (in_bbox bbox) q)"
  using assms
proof (cases rule: bbox_ok_cases)
  case 1
  then show ?thesis by (simp add: apply_bbox_def in_bbox_def)
next
  case (2 west south east north)
  have "pl_filter (\<lambda>r.
                 pl_and (pl_and (pl_and (pl_and (pl_and
                   (is_not_null (vehicle_x r))
                   (is_not_null (vehicle_y r)))
                   (pl_ge (vehicle_x r) west))
                   (pl_le (vehicle_x r) east))
                   (pl_ge (vehicle_y r) south))
                   (pl_le (vehicle_y r) north)) q = filter (in_bbox bbox) q"
    unfolding pl_filter_def in_bbox_def 2
    by (rule filter_cong) (auto simp: mask_True split: option.splits)
  with 2 show ?thesis by (simp add: apply_bbox_def)
qed

lemma apply_bbox_malformed:
  "\<not> bbox_ok bbox \<Longrightarrow> \<exists>msg. apply_bbox q bbox = Inl (ValueError msg)"
  by (auto simp: apply_bbox_def bbox_ok_def split: option.splits list.splits)

lemma map_err_query_pt:
  "\<forall>r\<in>set q. timestep_time r \<noteq> None \<and> located r \<Longrightarrow>
   \<exists>ps. map_err query_pt q = Inr ps \<and> list_all2 shows_row ps q"
proof (induction q)
  case Nil
  then show ?case by simp
next
  case (Cons r q)
  then obtain ps where ps: "map_err query_pt q = Inr ps" "list_all2 shows_row ps q"
    by auto
  from Cons.prems obtain t x y where
    "timestep_time r = Some t" "vehicle_x r = Some x" "vehicle_y r = Some y"
    by (auto simp: located_def)
  then have "\<exists>p. query_pt r = Inr p \<and> shows_row p r"
    by (simp add: query_pt_def py_float_def shows_row_def)
  with ps show ?case by auto
qed

lemma cap_subset: "set (fst (cap q n)) \<subseteq> set q"
  by (auto simp: cap_def dest: in_set_takeD)

lemma cap_eq:
  "cap q n = (if 0 < n \<and> n < int (length q) then (take (nat n) q, True) else (q, False))"
  by (simp add: cap_def)

lemma cap_Nil: "cap [] n = ([], False)"
  by (auto simp: cap_def)

lemma list_all2_left_set:
  "list_all2 R ps q \<Longrightarrow> p \<in> set ps \<Longrightarrow> \<exists>r\<in>set q. R p r"
  by (induction rule: list_all2_induct) auto

lemma query_unfold:
  assumes "bbox_ok bbox"
  shows "query fdiv td s e bbox vehicle_ids n w =
     (case sample fdiv (filter (matches s e bbox vehicle_ids) (df td)) w of
        Inl err \<Rightarrow> Inl err
      | Inr V \<Rightarrow>
          (case map_err query_pt (fst (cap V n)) of
             Inl err \<Rightarrow> Inl err
           | Inr ps \<Rightarrow>
               Inr (ps, sort (map py_str (remdups (map vehicle_id V))),
                    \<lparr>rows = length ps, vehicles = length (remdups (map vehicle_id V)),
                     truncated = snd (cap V n), sample_every = w, max_points = n\<rparr>)))"
proof -
  have v: "pl_filter has_lon_lat (apply_ids (filter (in_bbox bbox)
             (apply_time (df td) s e)) vehicle_ids)
       = filter (matches s e bbox vehicle_ids) (df td)"
    by (simp add: apply_time_filter apply_ids_filter has_lon_lat_filter
          matches_def [abs_def] conj_assoc)
  have hit: "(if length V > 0 then remdups (map vehicle_id V) else [])
      = remdups (map vehicle_id V)" for V :: frame
    by simp
  show ?thesis
    unfolding query_def apply_bbox_filter [OF assms] Let_def sum.case v hit
    by (simp add: case_prod_beta split: sum.splits)
qed

lemma query_raises:
  "bbox_ok bbox \<Longrightarrow> sample fdiv (filter (matches s e bbox vehicle_ids) (df td)) w = Inl err \<Longrightarrow>
   query fdiv td s e bbox vehicle_ids n w = Inl err"
  by (simp add: query_unfold)

lemma view_rows:
  "sample fdiv (filter (matches s e bbox vehicle_ids) (df td)) w = Inr V \<Longrightarrow> r \<in> set V \<Longrightarrow>
   r \<in> set (df td) \<and> matches s e bbox vehicle_ids r"
  using sample_Inr_subset [of fdiv "filter (matches s e bbox vehicle_ids) (df td)" w V]
  by auto

lemma query_eq:
  assumes ok: "bbox_ok bbox"
    and V: "sample fdiv (filter (matches s e bbox vehicle_ids) (df td)) w = Inr V"
  shows "\<exists>ps. list_all2 shows_row ps (fst (cap V n)) \<and>
     query fdiv td s e bbox vehicle_ids n w =
       Inr (ps, sort (map py_str (remdups (map vehicle_id V))),
            \<lparr>rows = length ps, vehicles = length (remdups (map vehicle_id V)),
             truncated = snd (cap V n), sample_every = w, max_points = n\<rparr>)"
proof -
  have "\<forall>r\<in>set (fst (cap V n)). timestep_time r \<noteq> None \<and> located r"
  proof
    fix r
    assume "r \<in> set (fst (cap V n))"
    with cap_subset [of V n] have "r \<in> set V" by blast
    then have "matches s e bbox vehicle_ids r" using view_rows [OF V] by blast
    then show "timestep_time r \<noteq> None \<and> located r"
      by (cases "timestep_time r") (auto simp: matches_def in_time_def)
  qed
  then obtain ps where ps: "map_err query_pt (fst (cap V n)) = Inr ps"
    "list_all2 shows_row ps (fst (cap V n))"
    using map_err_query_pt by blast
  have "query fdiv td s e bbox vehicle_ids n w =
       Inr (ps, sort (map py_str (remdups (map vehicle_id V))),
            \<lparr>rows = length ps, vehicles = length (remdups (map vehicle_id V)),
             truncated = snd (cap V n), sample_every = w, max_points = n\<rparr>)"
    by (simp only: query_unfold [OF ok] V ps(1) sum.case)
  with ps(2) show ?thesis by blast
qed

lemma query_Inr_bbox_ok:
  assumes "query fdiv td s e bbox vehicle_ids n w = Inr res"
  shows "bbox_ok bbox"
proof (rule ccontr)
  assume "\<not> bbox_ok bbox"
  then obtain msg where "apply_bbox (apply_time (df td) s e) bbox = Inl (ValueError msg)"
    using apply_bbox_malformed by blast
  then have "query fdiv td s e bbox vehicle_ids n w = Inl (ValueError msg)"
    by (simp add: query_def)
  with assms show False by simp
qed

lemma query_Inr_view:
  assumes "query fdiv td s e bbox vehicle_ids n w = Inr res"
  shows "\<exists>V. sample fdiv (filter (matches s e bbox vehicle_ids) (df td)) w = Inr V"
proof (cases "sample fdiv (filter (matches s e bbox vehicle_ids) (df td)) w")
  case (Inl err)
  from assms have "bbox_ok bbox" by (rule query_Inr_bbox_ok)
  from query_raises [OF this Inl] assms show ?thesis by simp
next
  case (Inr V)
  then show ?thesis by blast
qed

lemma view_vehicles_card:
  assumes "sample fdiv (filter (matches s e bbox vehicle_ids) (df td)) w = Inr V"
  shows "length (remdups (map vehicle_id V))
     = card (vehicle_id ` {r \<in> set (df td). matches s e bbox vehicle_ids r})"
proof -
  have "length (remdups (map vehicle_id V)) = card (vehicle_id ` set V)"
    by (simp add: length_remdups_card_conv)
  also have "vehicle_id ` set V
      = vehicle_id ` set (filter (matches s e bbox vehicle_ids) (df td))"
    using assms by (rule sample_Inr_vehicles)
  finally show ?thesis by simp
qed

lemma query_cong:
  assumes "\<forall>x. fdiv x w = gdiv x w"
  shows "query fdiv td s e bbox vehicle_ids n w = query gdiv td s e bbox vehicle_ids n w"
proof -
  have h: "sample fdiv q w = sample gdiv q w" for q
    using assms by (rule sample_cong)
  show ?thesis by (simp only: query_def h)
qed

lemma query_unsampled:
  assumes "w \<le> 0"
  shows "query fdiv td s e bbox vehicle_ids n w = query gdiv td s e bbox vehicle_ids n w"
proof -
  have h: "sample fdiv q w = sample gdiv q w" for q
    using assms by (simp add: sample_def)
  show ?thesis by (simp only: query_def h)
qed

lemma float64_div_one: "float64_div fdiv \<Longrightarrow> \<forall>x. fdiv x 1 = x / 1"
  by (simp add: float64_div_def)

lemma scenario_A_query:
  assumes "float64_div fdiv"
  shows "query fdiv scenario_A 0 2 None None 0 1 =
     Inr ([\<lparr>pt_t = 0, pt_lon = 10, pt_lat = 50, pt_vehicleId = ''v1''\<rparr>,
           \<lparr>pt_t = 1, pt_lon = 12, pt_lat = 50, pt_vehicleId = ''v1''\<rparr>],
          [''v1''],
          \<lparr>rows = 2, vehicles = 1, truncated = False, sample_every = 1, max_points = 0\<rparr>)"
proof -
  have "query (/) scenario_A 0 2 None None 0 1 =
     Inr ([\<lparr>pt_t = 0, pt_lon = 10, pt_lat = 50, pt_vehicleId = ''v1''\<rparr>,
           \<lparr>pt_t = 1, pt_lon = 12, pt_lat = 50, pt_vehicleId = ''v1''\<rparr>],
          [''v1''],
          \<lparr>rows = 2, vehicles = 1, truncated = False, sample_every = 1, max_points = 0\<rparr>)"
    by code_simp
  then show ?thesis
    by (simp only: query_cong [of fdiv 1 "(/)", OF float64_div_one [OF assms]])
qed

lemma scenario_B_query:
  "query fdiv scenario_B 0 10 None None 1 0 =
     Inr ([\<lparr>pt_t = 0, pt_lon = 10, pt_lat = 50, pt_vehicleId = ''v1''\<rparr>],
          [''v1'', ''v2''],
          \<lparr>rows = 1, vehicles = 2, truncated = True, sample_every = 0, max_points = 1\<rparr>)"
proof -
  have "query (/) scenario_B 0 10 None None 1 0 =
     Inr ([\<lparr>pt_t = 0, pt_lon = 10, pt_lat = 50, pt_vehicleId = ''v1''\<rparr>],
          [''v1'', ''v2''],
          \<lparr>rows = 1, vehicles = 2, truncated = True, sample_every = 0, max_points = 1\<rparr>)"
    by code_simp
  then show ?thesis
    by (simp only: query_unsampled [of 0 fdiv _ _ _ _ _ _ "(/)", OF order_refl])
qed

lemma scenario_order_query:
  assumes "float64_div fdiv"
  shows "query fdiv scenario_order 0 10 None None 2 1 =
     Inr ([\<lparr>pt_t = 0, pt_lon = 10, pt_lat = 50, pt_vehicleId = ''v1''\<rparr>,
           \<lparr>pt_t = 0, pt_lon = 12, pt_lat = 51, pt_vehicleId = ''v2''\<rparr>],
          [''v1'', ''v2''],
          \<lparr>rows = 2, vehicles = 2, truncated = False, sample_every = 1, max_points = 2\<rparr>)"
proof -
  have "query (/) scenario_order 0 10 None None 2 1 =
     Inr ([\<lparr>pt_t = 0, pt_lon = 10, pt_lat = 50, pt_vehicleId = ''v1''\<rparr>,
           \<lparr>pt_t = 0, pt_lon = 12, pt_lat = 51, pt_vehicleId = ''v2''\<rparr>],
          [''v1'', ''v2''],
          \<lparr>rows = 2, vehicles = 2, truncated = False, sample_every = 1, max_points = 2\<rparr>)"
    by code_simp
  then show ?thesis
    by (simp only: query_cong [of fdiv 1 "(/)", OF float64_div_one [OF assms]])
qed

section \<open>The claims\<close>

subsection \<open>The sampler\<close>

text \<open>
  Claim C3. For a bucket width \<open>w > 0\<close>, whenever the sampler returns a view, that view
  holds at most one row for each pair of a vehicle and a bucket \<open>\<lfloor>time / w\<rfloor>\<close>; it is a
  subsequence of the input, so the surviving rows are unchanged and keep their order;
  for every pair the row kept is the first row of the input with that pair, which on an
  input sorted by vehicle and time has the earliest time of its group. The sampler
  returns a view exactly when every bucket is an Int64, and otherwise raises
  InvalidOperationError. For \<open>w \<le> 0\<close> sampling returns the view as it is.
  Scenario A: one vehicle at the times 0, 0.5, 1 and 1.5, queried over \<open>[0, 2]\<close> with
  \<open>w = 1\<close>, gives the rows at the times 0 and 1.
\<close>

theorem sample_contract:
  "(0 < w \<longrightarrow>
      (\<forall>out. sample fdiv q w = Inr out \<longrightarrow>
         distinct (map (\<lambda>r. (vehicle_id r, map_option (\<lambda>t. \<lfloor>fdiv t w\<rfloor>) (timestep_time r)))
                    out) \<and>
         subseq out q \<and>
         (\<forall>k. find (\<lambda>r. sample_key fdiv w r = k) out
               = find (\<lambda>r. sample_key fdiv w r = k) q) \<and>
         (sorted (map row_key q) \<longrightarrow>
            (\<forall>r\<in>set q. \<forall>r'\<in>set out.
               sample_key fdiv w r' = sample_key fdiv w r \<longrightarrow>
               timestep_time r' \<le> timestep_time r))) \<and>
      ((\<exists>out. sample fdiv q w = Inr out) \<longleftrightarrow>
         (\<forall>r\<in>set q. \<forall>t. timestep_time r = Some t \<longrightarrow>
            - (2 ^ 63) \<le> \<lfloor>fdiv t w\<rfloor> \<and> \<lfloor>fdiv t w\<rfloor> < 2 ^ 63)) \<and>
      (\<forall>err. sample fdiv q w = Inl err \<longrightarrow> err = InvalidOperationError)) \<and>
   (w \<le> 0 \<longrightarrow> sample fdiv q w = Inr q) \<and>
   (float64_div fdiv \<longrightarrow>
      query fdiv scenario_A 0 2 None None 0 1 =
        Inr ([\<lparr>pt_t = 0, pt_lon = 10, pt_lat = 50, pt_vehicleId = ''v1''\<rparr>,
              \<lparr>pt_t = 1, pt_lon = 12, pt_lat = 50, pt_vehicleId = ''v1''\<rparr>],
             [''v1''],
             \<lparr>rows = 2, vehicles = 1, truncated = False, sample_every = 1,
              max_points = 0\<rparr>))"
proof (intro conjI impI allI)
  fix out
  assume w: "0 < w" and s: "sample fdiv q w = Inr out"
  from sample_Inr_scan [OF w s] have out: "out = scan_first (sample_key fdiv w) [] q"
    by simp
  have "distinct (map (sample_key fdiv w) out)"
    by (simp add: out scan_distinct)
  then show "distinct (map (\<lambda>r. (vehicle_id r, map_option (\<lambda>t. \<lfloor>fdiv t w\<rfloor>) (timestep_time r)))
                    out)"
    by (simp add: sample_key_def [abs_def])
  show "subseq out q"
    by (simp add: out scan_subseq)
  show "find (\<lambda>r. sample_key fdiv w r = k) out = find (\<lambda>r. sample_key fdiv w r = k) q" for k
    by (simp add: out scan_find)
  show "\<forall>r\<in>set q. \<forall>r'\<in>set out.
               sample_key fdiv w r' = sample_key fdiv w r \<longrightarrow>
               timestep_time r' \<le> timestep_time r"
    if "sorted (map row_key q)"
    using sample_earliest [OF w s that] by blast
next
  assume w: "0 < w"
  then show "(\<exists>out. sample fdiv q w = Inr out) \<longleftrightarrow>
         (\<forall>r\<in>set q. \<forall>t. timestep_time r = Some t \<longrightarrow>
            - (2 ^ 63) \<le> \<lfloor>fdiv t w\<rfloor> \<and> \<lfloor>fdiv t w\<rfloor> < 2 ^ 63)"
    by (simp add: sample_eq castable_iff)
next
  fix err
  assume "0 < w" and "sample fdiv q w = Inl err"
  then show "err = InvalidOperationError"
    by (auto simp: sample_eq split: if_splits)
next
  assume "w \<le> 0"
  then show "sample fdiv q w = Inr q" by (simp add: sample_def)
next
  assume "float64_div fdiv"
  then show "query fdiv scenario_A 0 2 None None 0 1 =
        Inr ([\<lparr>pt_t = 0, pt_lon = 10, pt_lat = 50, pt_vehicleId = ''v1''\<rparr>,
              \<lparr>pt_t = 1, pt_lon = 12, pt_lat = 50, pt_vehicleId = ''v1''\<rparr>],
             [''v1''],
             \<lparr>rows = 2, vehicles = 1, truncated = False, sample_every = 1,
              max_points = 0\<rparr>)"
    by (rule scenario_A_query)
qed

theorem sample_contract_witness:
  "(0::real) < 1 \<and> float64_div (/) \<and>
   sample (/) (df scenario_A) 1 = Inr [mk_row 0 ''v1'' 10 50, mk_row 1 ''v1'' 12 50] \<and>
   sorted (map row_key (df scenario_A)) \<and>
   subseq [mk_row 0 ''v1'' 10 50, mk_row 1 ''v1'' 12 50] (df scenario_A) \<and>
   find (\<lambda>r. sample_key (/) 1 r = (Some ''v1'', Some 1))
     [mk_row 0 ''v1'' 10 50, mk_row 1 ''v1'' 12 50]
     = find (\<lambda>r. sample_key (/) 1 r = (Some ''v1'', Some 1)) (df scenario_A) \<and>
   sample (/) (df scenario_A) 0 = Inr (df scenario_A) \<and>
   query (/) scenario_A 0 2 None None 0 1 =
     Inr ([\<lparr>pt_t = 0, pt_lon = 10, pt_lat = 50, pt_vehicleId = ''v1''\<rparr>,
           \<lparr>pt_t = 1, pt_lon = 12, pt_lat = 50, pt_vehicleId = ''v1''\<rparr>],
          [''v1''],
          \<lparr>rows = 2, vehicles = 1, truncated = False, sample_every = 1, max_points = 0\<rparr>)"
proof -
  have f: "float64_div (/)"
    by (simp add: float64_div_def)
  have s: "sample (/) (df scenario_A) 1 = Inr [mk_row 0 ''v1'' 10 50, mk_row 1 ''v1'' 12 50]"
    by code_simp
  have o: "sorted (map row_key (df scenario_A))"
    by code_simp
  from sample_contract [of 1 "(/)" "df scenario_A"] s
  have "subseq [mk_row 0 ''v1'' 10 50, mk_row 1 ''v1'' 12 50] (df scenario_A)"
    and "find (\<lambda>r. sample_key (/) 1 r = (Some ''v1'', Some 1))
       [mk_row 0 ''v1'' 10 50, mk_row 1 ''v1'' 12 50]
       = find (\<lambda>r. sample_key (/) 1 r = (Some ''v1'', Some 1)) (df scenario_A)"
    by simp_all
  moreover from sample_contract [of 0 "(/)" "df scenario_A"]
  have "sample (/) (df scenario_A) 0 = Inr (df scenario_A)"
    by simp
  moreover from sample_contract [of 1 "(/)" "df scenario_A"] f
  have "query (/) scenario_A 0 2 None None 0 1 =
     Inr ([\<lparr>pt_t = 0, pt_lon = 10, pt_lat = 50, pt_vehicleId = ''v1''\<rparr>,
           \<lparr>pt_t = 1, pt_lon = 12, pt_lat = 50, pt_vehicleId = ''v1''\<rparr>],
          [''v1''],
          \<lparr>rows = 2, vehicles = 1, truncated = False, sample_every = 1, max_points = 0\<rparr>)"
    by simp
  ultimately show ?thesis using f s o by simp
qed

text \<open>
  Claim C4. Sampling is idempotent: sampling a sampled view again with the same bucket
  width returns it unchanged, and where the first sampling raises there is no view to
  sample again.
\<close>

theorem sample_idempotent:
  "(case sample fdiv q w of Inl err \<Rightarrow> Inl err | Inr out \<Rightarrow> sample fdiv out w)
     = sample fdiv q w"
proof (cases "w \<le> 0")
  case True
  then show ?thesis by (simp add: sample_eq)
next
  case w: False
  show ?thesis
  proof (cases "castable fdiv w q")
    case True
    let ?out = "scan_first (sample_key fdiv w) [] q"
    have "castable fdiv w ?out"
      using True scan_subset by (rule castable_subset)
    with w True show ?thesis
      by (simp add: sample_eq scan_idem)
  next
    case False
    with w show ?thesis by (simp add: sample_eq)
  qed
qed

subsection \<open>The vehicle-id filter\<close>

text \<open>
  Claim C7. With no list of vehicle ids, or with the empty list, the vehicle-id filter
  returns the view unchanged; with a non-empty list it keeps exactly the rows whose
  vehicle id is in the list.
\<close>

theorem apply_ids_policy:
  "apply_ids q None = q \<and> apply_ids q (Some []) = q \<and>
   (ids \<noteq> [] \<longrightarrow>
      apply_ids q (Some ids) = filter (\<lambda>r. \<exists>v. vehicle_id r = Some v \<and> v \<in> set ids) q)"
  by (cases ids) (simp_all add: apply_ids_def pl_filter_def is_in_True)

theorem apply_ids_policy_witness:
  "[''v2''] \<noteq> [] \<and>
   apply_ids [mk_row 0 ''v1'' 10 50, mk_row 0 ''v2'' 11 51] (Some [''v2''])
     = [mk_row 0 ''v2'' 11 51]"
  using apply_ids_policy [of "[mk_row 0 ''v1'' 10 50, mk_row 0 ''v2'' 11 51]" "[''v2'']"]
  by (simp add: mk_row_def)

subsection \<open>The point-cloud query\<close>

text \<open>
  Claim C1. A query with a well-formed bounding box filters the table (time range,
  bounding box, vehicle ids, longitude and latitude present), then samples, then counts
  the distinct vehicles, then truncates: where the sampler raises, the query raises the
  same error; where it returns a view, the query returns the payload of that view
  truncated, and the \<open>vehicles\<close> statistic is the number of distinct vehicle ids of the
  view before truncation, which is the number of distinct vehicle ids among all matching
  rows. It is at least the number of distinct vehicles among the returned points and can
  be larger. Scenario B: two vehicles with one matching row each and \<open>maxPoints = 1\<close>
  give one row, two vehicles and \<open>truncated\<close>. On \<open>scenario_order\<close> with
  \<open>sampleEvery = 1\<close> and \<open>maxPoints = 2\<close> the two sampled rows are returned and nothing
  is truncated, which only sampling before truncating gives.
\<close>

theorem query_composition:
  "(bbox_ok bbox \<longrightarrow>
      (case sample fdiv (filter (matches s e bbox vehicle_ids) (df td)) w of
         Inl err \<Rightarrow> query fdiv td s e bbox vehicle_ids n w = Inl err
       | Inr V \<Rightarrow>
           (\<exists>ps hit st.
              query fdiv td s e bbox vehicle_ids n w = Inr (ps, hit, st) \<and>
              list_all2 shows_row ps (fst (cap V n)) \<and>
              vehicles st = card (vehicle_id ` set V) \<and>
              vehicles st =
                card (vehicle_id ` {r \<in> set (df td). matches s e bbox vehicle_ids r}) \<and>
              vehicles st = length hit \<and>
              rows st = length ps \<and>
              card (pt_vehicleId ` set ps) \<le> vehicles st))) \<and>
   query fdiv scenario_B 0 10 None None 1 0 =
     Inr ([\<lparr>pt_t = 0, pt_lon = 10, pt_lat = 50, pt_vehicleId = ''v1''\<rparr>],
          [''v1'', ''v2''],
          \<lparr>rows = 1, vehicles = 2, truncated = True, sample_every = 0, max_points = 1\<rparr>) \<and>
   (float64_div fdiv \<longrightarrow>
      query fdiv scenario_order 0 10 None None 2 1 =
        Inr ([\<lparr>pt_t = 0, pt_lon = 10, pt_lat = 50, pt_vehicleId = ''v1''\<rparr>,
              \<lparr>pt_t = 0, pt_lon = 12, pt_lat = 51, pt_vehicleId = ''v2''\<rparr>],
             [''v1'', ''v2''],
             \<lparr>rows = 2, vehicles = 2, truncated = False, sample_every = 1,
              max_points = 2\<rparr>))"
proof (intro conjI impI)
  assume ok: "bbox_ok bbox"
  show "case sample fdiv (filter (matches s e bbox vehicle_ids) (df td)) w of
         Inl err \<Rightarrow> query fdiv td s e bbox vehicle_ids n w = Inl err
       | Inr V \<Rightarrow>
           (\<exists>ps hit st.
              query fdiv td s e bbox vehicle_ids n w = Inr (ps, hit, st) \<and>
              list_all2 shows_row ps (fst (cap V n)) \<and>
              vehicles st = card (vehicle_id ` set V) \<and>
              vehicles st =
                card (vehicle_id ` {r \<in> set (df td). matches s e bbox vehicle_ids r}) \<and>
              vehicles st = length hit \<and>
              rows st = length ps \<and>
              card (pt_vehicleId ` set ps) \<le> vehicles st)"
  proof (cases "sample fdiv (filter (matches s e bbox vehicle_ids) (df td)) w")
    case (Inl err)
    from query_raises [OF ok Inl] Inl show ?thesis by simp
  next
    case (Inr V)
    let ?ids = "remdups (map vehicle_id V)"
    let ?st = "\<lparr>rows = length ps, vehicles = length ?ids, truncated = snd (cap V n),
              sample_every = w, max_points = n\<rparr>"
    from query_eq [OF ok Inr, of n]
    obtain ps where ps: "list_all2 shows_row ps (fst (cap V n))"
      and q: "query fdiv td s e bbox vehicle_ids n w =
         Inr (ps, sort (map py_str ?ids),
              \<lparr>rows = length ps, vehicles = length ?ids, truncated = snd (cap V n),
               sample_every = w, max_points = n\<rparr>)"
      by blast
    have c1: "length ?ids = card (vehicle_id ` set V)"
      by (simp add: length_remdups_card_conv)
    have c2: "length ?ids
        = card (vehicle_id ` {r \<in> set (df td). matches s e bbox vehicle_ids r})"
      using Inr by (rule view_vehicles_card)
    have "pt_vehicleId ` set ps \<subseteq> py_str ` vehicle_id ` set V"
    proof
      fix v
      assume "v \<in> pt_vehicleId ` set ps"
      then obtain p where p: "p \<in> set ps" "v = pt_vehicleId p" by blast
      from list_all2_left_set [OF ps p(1)]
      obtain r where r: "r \<in> set (fst (cap V n))" "shows_row p r" by blast
      with cap_subset [of V n] have "r \<in> set V" by blast
      with p r show "v \<in> py_str ` vehicle_id ` set V"
        by (auto simp: shows_row_def)
    qed
    then have "card (pt_vehicleId ` set ps) \<le> card (py_str ` vehicle_id ` set V)"
      by (intro card_mono) auto
    also have "\<dots> \<le> card (vehicle_id ` set V)"
      by (intro card_image_le) auto
    finally have c3: "card (pt_vehicleId ` set ps) \<le> length ?ids"
      using c1 by simp
    have "\<exists>ps hit st.
              query fdiv td s e bbox vehicle_ids n w = Inr (ps, hit, st) \<and>
              list_all2 shows_row ps (fst (cap V n)) \<and>
              vehicles st = card (vehicle_id ` set V) \<and>
              vehicles st =
                card (vehicle_id ` {r \<in> set (df td). matches s e bbox vehicle_ids r}) \<and>
              vehicles st = length hit \<and>
              rows st = length ps \<and>
              card (pt_vehicleId ` set ps) \<le> vehicles st"
    proof (intro exI conjI)
      show "query fdiv td s e bbox vehicle_ids n w =
         Inr (ps, sort (map py_str ?ids),
              \<lparr>rows = length ps, vehicles = length ?ids, truncated = snd (cap V n),
               sample_every = w, max_points = n\<rparr>)"
        by (rule q)
      show "list_all2 shows_row ps (fst (cap V n))"
        by (rule ps)
      show "vehicles \<lparr>rows = length ps, vehicles = length ?ids, truncated = snd (cap V n),
               sample_every = w, max_points = n\<rparr> = card (vehicle_id ` set V)"
        using c1 by simp
      show "vehicles \<lparr>rows = length ps, vehicles = length ?ids, truncated = snd (cap V n),
               sample_every = w, max_points = n\<rparr> =
             card (vehicle_id ` {r \<in> set (df td). matches s e bbox vehicle_ids r})"
        using c2 by simp
      show "vehicles \<lparr>rows = length ps, vehicles = length ?ids, truncated = snd (cap V n),
               sample_every = w, max_points = n\<rparr> = length (sort (map py_str ?ids))"
        by simp
      show "rows \<lparr>rows = length ps, vehicles = length ?ids, truncated = snd (cap V n),
               sample_every = w, max_points = n\<rparr> = length ps"
        by simp
      show "card (pt_vehicleId ` set ps) \<le>
          vehicles \<lparr>rows = length ps, vehicles = length ?ids, truncated = snd (cap V n),
               sample_every = w, max_points = n\<rparr>"
        using c3 by simp
    qed
    with Inr show ?thesis by simp
  qed
next
  show "query fdiv scenario_B 0 10 None None 1 0 =
     Inr ([\<lparr>pt_t = 0, pt_lon = 10, pt_lat = 50, pt_vehicleId = ''v1''\<rparr>],
          [''v1'', ''v2''],
          \<lparr>rows = 1, vehicles = 2, truncated = True, sample_every = 0, max_points = 1\<rparr>)"
    by (rule scenario_B_query)
next
  assume "float64_div fdiv"
  then show "query fdiv scenario_order 0 10 None None 2 1 =
        Inr ([\<lparr>pt_t = 0, pt_lon = 10, pt_lat = 50, pt_vehicleId = ''v1''\<rparr>,
              \<lparr>pt_t = 0, pt_lon = 12, pt_lat = 51, pt_vehicleId = ''v2''\<rparr>],
             [''v1'', ''v2''],
             \<lparr>rows = 2, vehicles = 2, truncated = False, sample_every = 1,
              max_points = 2\<rparr>)"
    by (rule scenario_order_query)
qed

theorem query_composition_witness:
  "bbox_ok (Some [0, 0, 20, 60]) \<and> float64_div (/) \<and>
   sample (/) (filter (matches 0 10 (Some [0, 0, 20, 60]) None) (df scenario_order)) 1
     = Inr [mk_row 0 ''v1'' 10 50, mk_row 0 ''v2'' 12 51] \<and>
   (\<exists>ps hit st.
      query (/) scenario_order 0 10 (Some [0, 0, 20, 60]) None 1 1 = Inr (ps, hit, st) \<and>
      list_all2 shows_row ps [mk_row 0 ''v1'' 10 50] \<and>
      vehicles st = 2 \<and> rows st = 1) \<and>
   query (/) scenario_order 0 10 None None 2 1 =
     Inr ([\<lparr>pt_t = 0, pt_lon = 10, pt_lat = 50, pt_vehicleId = ''v1''\<rparr>,
           \<lparr>pt_t = 0, pt_lon = 12, pt_lat = 51, pt_vehicleId = ''v2''\<rparr>],
          [''v1'', ''v2''],
          \<lparr>rows = 2, vehicles = 2, truncated = False, sample_every = 1, max_points = 2\<rparr>)"
proof -
  have ok: "bbox_ok (Some [0, 0, 20, 60])"
    by (simp add: bbox_ok_def)
  have f: "float64_div (/)"
    by (simp add: float64_div_def)
  have V: "sample (/) (filter (matches 0 10 (Some [0, 0, 20, 60]) None) (df scenario_order)) 1
     = Inr [mk_row 0 ''v1'' 10 50, mk_row 0 ''v2'' 12 51]"
    by code_simp
  have c: "card (vehicle_id ` set [mk_row 0 ''v1'' 10 50, mk_row 0 ''v2'' 12 51]) = 2"
    by (simp add: mk_row_def)
  have k: "fst (cap [mk_row 0 ''v1'' 10 50, mk_row 0 ''v2'' 12 51] 1) = [mk_row 0 ''v1'' 10 50]"
    by (simp add: cap_def)
  from query_composition [where bbox = "Some [0, 0, 20, 60]" and fdiv = "(/)" and s = 0
      and e = 10 and vehicle_ids = None and td = scenario_order and w = 1 and n = 1,
      THEN conjunct1, THEN mp, OF ok]
  have "\<exists>ps hit st.
      query (/) scenario_order 0 10 (Some [0, 0, 20, 60]) None 1 1 = Inr (ps, hit, st) \<and>
      list_all2 shows_row ps (fst (cap [mk_row 0 ''v1'' 10 50, mk_row 0 ''v2'' 12 51] 1)) \<and>
      vehicles st = card (vehicle_id ` set [mk_row 0 ''v1'' 10 50, mk_row 0 ''v2'' 12 51]) \<and>
      vehicles st =
        card (vehicle_id ` {r \<in> set (df scenario_order).
                             matches 0 10 (Some [0, 0, 20, 60]) None r}) \<and>
      vehicles st = length hit \<and>
      rows st = length ps \<and>
      card (pt_vehicleId ` set ps) \<le> vehicles st"
    by (simp only: V sum.case)
  then obtain ps hit st where
    q: "query (/) scenario_order 0 10 (Some [0, 0, 20, 60]) None 1 1 = Inr (ps, hit, st)"
    and l: "list_all2 shows_row ps [mk_row 0 ''v1'' 10 50]"
    and v: "vehicles st = 2" and r: "rows st = length ps"
    unfolding k c by blast
  from l have "length ps = 1" by (simp add: list_all2_lengthD)
  with q l v r have e: "\<exists>ps hit st.
      query (/) scenario_order 0 10 (Some [0, 0, 20, 60]) None 1 1 = Inr (ps, hit, st) \<and>
      list_all2 shows_row ps [mk_row 0 ''v1'' 10 50] \<and>
      vehicles st = 2 \<and> rows st = 1"
    by auto
  have o: "query (/) scenario_order 0 10 None None 2 1 =
     Inr ([\<lparr>pt_t = 0, pt_lon = 10, pt_lat = 50, pt_vehicleId = ''v1''\<rparr>,
           \<lparr>pt_t = 0, pt_lon = 12, pt_lat = 51, pt_vehicleId = ''v2''\<rparr>],
          [''v1'', ''v2''],
          \<lparr>rows = 2, vehicles = 2, truncated = False, sample_every = 1, max_points = 2\<rparr>)"
    by (rule query_composition [THEN conjunct2, THEN conjunct2, THEN mp, OF f])
  show ?thesis
    by (intro conjI ok f V e o)
qed

lemma in_bbox_box:
  "in_bbox (Some [west, south, east, north]) r \<Longrightarrow> vehicle_x r = Some x \<Longrightarrow>
   vehicle_y r = Some y \<Longrightarrow> west \<le> x \<and> x \<le> east \<and> south \<le> y \<and> y \<le> north"
  by (simp add: in_bbox_def)

lemma in_ids_member:
  "in_ids (Some ids) r \<Longrightarrow> ids \<noteq> [] \<Longrightarrow> py_str (vehicle_id r) \<in> set ids"
  by (cases ids; cases "vehicle_id r") (auto simp: in_ids_def py_str_def)

lemma query_point_row:
  assumes q: "query fdiv td s e bbox vehicle_ids n w = Inr (ps, hit, st)" and p: "p \<in> set ps"
  shows "\<exists>r\<in>set (df td). shows_row p r \<and> matches s e bbox vehicle_ids r"
proof -
  have ok: "bbox_ok bbox" using q by (rule query_Inr_bbox_ok)
  from query_Inr_view [OF q] obtain V where
    V: "sample fdiv (filter (matches s e bbox vehicle_ids) (df td)) w = Inr V"
    by blast
  from query_eq [OF ok V, of n] q
  have "list_all2 shows_row ps (fst (cap V n))" by auto
  from list_all2_left_set [OF this p]
  obtain r where r: "r \<in> set (fst (cap V n))" "shows_row p r" by blast
  with cap_subset [of V n] have "r \<in> set V" by blast
  then have "r \<in> set (df td) \<and> matches s e bbox vehicle_ids r"
    using view_rows [OF V] by blast
  with r show ?thesis by blast
qed

lemma query_empty_range:
  assumes "e < s" and ok: "bbox_ok bbox"
  shows "query fdiv td s e bbox vehicle_ids n w =
     Inr ([], [], \<lparr>rows = 0, vehicles = 0, truncated = False, sample_every = w, max_points = n\<rparr>)"
proof -
  have "filter (matches s e bbox vehicle_ids) (df td) = []"
    using assms(1) by (auto simp: filter_empty_conv matches_def in_time_def split: option.splits)
  then have V: "sample fdiv (filter (matches s e bbox vehicle_ids) (df td)) w = Inr []"
    by (simp add: sample_Nil)
  from query_eq [OF ok V, of n] show ?thesis
    by (auto simp: cap_Nil)
qed

text \<open>
  Claim C6. Every point a query returns shows a row of the table whose time lies in
  \<open>[timeStart, timeEnd]\<close>, both ends included; with a bounding box its longitude and
  latitude lie in the box, both ends included; with a non-empty list of vehicle ids its
  vehicle id is in the list. With \<open>timeStart > timeEnd\<close> and a well-formed box the query
  returns the empty result and raises nothing.
\<close>

theorem filter_soundness:
  "(\<forall>ps hit st p. query fdiv td s e bbox vehicle_ids n w = Inr (ps, hit, st) \<and> p \<in> set ps \<longrightarrow>
      s \<le> pt_t p \<and> pt_t p \<le> e \<and>
      (\<forall>west south east north. bbox = Some [west, south, east, north] \<longrightarrow>
         west \<le> pt_lon p \<and> pt_lon p \<le> east \<and> south \<le> pt_lat p \<and> pt_lat p \<le> north) \<and>
      (\<forall>ids. vehicle_ids = Some ids \<and> ids \<noteq> [] \<longrightarrow> pt_vehicleId p \<in> set ids) \<and>
      (\<exists>r\<in>set (df td). shows_row p r)) \<and>
   (e < s \<and> bbox_ok bbox \<longrightarrow>
      query fdiv td s e bbox vehicle_ids n w =
        Inr ([], [], \<lparr>rows = 0, vehicles = 0, truncated = False,
                      sample_every = w, max_points = n\<rparr>))"
proof (intro conjI allI impI)
  fix ps hit st p
  assume a: "query fdiv td s e bbox vehicle_ids n w = Inr (ps, hit, st) \<and> p \<in> set ps"
  then obtain r where r: "r \<in> set (df td)" "shows_row p r" "matches s e bbox vehicle_ids r"
    using query_point_row [of fdiv td s e bbox vehicle_ids n w ps hit st p] by blast
  from r(2) have f: "timestep_time r = Some (pt_t p)" "vehicle_x r = Some (pt_lon p)"
    "vehicle_y r = Some (pt_lat p)" "pt_vehicleId p = py_str (vehicle_id r)"
    by (simp_all add: shows_row_def)
  from r(3) have m: "in_time s e r" "in_bbox bbox r" "in_ids vehicle_ids r"
    by (simp_all add: matches_def)
  from m(1) f(1) show "s \<le> pt_t p" "pt_t p \<le> e"
    by (simp_all add: in_time_def)
  show "\<exists>r\<in>set (df td). shows_row p r"
    using r by blast
  {
    fix west south east north
    assume "bbox = Some [west, south, east, north]"
    with m(2) f(2,3) have "west \<le> pt_lon p \<and> pt_lon p \<le> east \<and> south \<le> pt_lat p \<and> pt_lat p \<le> north"
      using in_bbox_box by blast
    then show "west \<le> pt_lon p" "pt_lon p \<le> east" "south \<le> pt_lat p" "pt_lat p \<le> north"
      by simp_all
  }
  {
    fix ids
    assume "vehicle_ids = Some ids \<and> ids \<noteq> []"
    with m(3) f(4) show "pt_vehicleId p \<in> set ids"
      using in_ids_member by metis
  }
next
  assume "e < s \<and> bbox_ok bbox"
  then show "query fdiv td s e bbox vehicle_ids n w =
        Inr ([], [], \<lparr>rows = 0, vehicles = 0, truncated = False,
                      sample_every = w, max_points = n\<rparr>)"
    using query_empty_range by blast
qed

theorem filter_soundness_witness:
  "query (/) scenario_A 0.5 1 (Some [11, 0, 20, 60]) (Some [''v1'']) 0 0 =
     Inr ([\<lparr>pt_t = 0.5, pt_lon = 11, pt_lat = 50, pt_vehicleId = ''v1''\<rparr>,
           \<lparr>pt_t = 1, pt_lon = 12, pt_lat = 50, pt_vehicleId = ''v1''\<rparr>],
          [''v1''],
          \<lparr>rows = 2, vehicles = 1, truncated = False, sample_every = 0, max_points = 0\<rparr>) \<and>
   (0.5::real) \<le> 1 \<and> (11::real) \<le> 12 \<and> ''v1'' \<in> set [''v1''] \<and>
   (1::real) < 2 \<and> bbox_ok None \<and>
   query (/) scenario_A 2 1 None None 0 0 =
     Inr ([], [], \<lparr>rows = 0, vehicles = 0, truncated = False, sample_every = 0, max_points = 0\<rparr>)"
proof -
  have q: "query (/) scenario_A 0.5 1 (Some [11, 0, 20, 60]) (Some [''v1'']) 0 0 =
     Inr ([\<lparr>pt_t = 0.5, pt_lon = 11, pt_lat = 50, pt_vehicleId = ''v1''\<rparr>,
           \<lparr>pt_t = 1, pt_lon = 12, pt_lat = 50, pt_vehicleId = ''v1''\<rparr>],
          [''v1''],
          \<lparr>rows = 2, vehicles = 1, truncated = False, sample_every = 0, max_points = 0\<rparr>)"
    by code_simp
  have ok: "bbox_ok None" by (simp add: bbox_ok_def)
  from filter_soundness [where fdiv = "(/)" and td = scenario_A and s = 2 and e = 1
      and bbox = None and vehicle_ids = None and n = 0 and w = 0] ok
  have "query (/) scenario_A 2 1 None None 0 0 =
     Inr ([], [], \<lparr>rows = 0, vehicles = 0, truncated = False, sample_every = 0, max_points = 0\<rparr>)"
    by simp
  with q ok show ?thesis by simp
qed

subsection \<open>The trajectory of one vehicle\<close>

lemma traj_coord_located: "located r \<Longrightarrow> \<exists>c. traj_coord r = Inr c \<and> coord_of c r"
  by (auto simp: located_def traj_coord_def py_float_def coord_of_def)

lemma traj_pt_timed:
  "located r \<Longrightarrow> timestep_time r \<noteq> None \<Longrightarrow> \<exists>p. traj_pt r = Inr p \<and> traj_shows_row p r"
  by (auto simp: located_def traj_pt_def py_float_def traj_shows_row_def)

lemma traj_pt_null: "timestep_time r = None \<Longrightarrow> traj_pt r = Inl TypeError"
  by (simp add: traj_pt_def py_float_def)

lemma traj_pt_cases: "located r \<Longrightarrow> traj_pt r = Inl TypeError \<or> (\<exists>p. traj_pt r = Inr p)"
  by (cases "timestep_time r") (auto simp: located_def traj_pt_def py_float_def)

lemma trajectory_select:
  "(case (s, e) of
      (Some a, Some b) \<Rightarrow>
        apply_time (pl_filter has_lon_lat (pl_filter (\<lambda>r. pl_eq (vehicle_id r) vid) (df td))) a b
    | _ \<Rightarrow> pl_filter has_lon_lat (pl_filter (\<lambda>r. pl_eq (vehicle_id r) vid) (df td)))
   = traj_view td vid s e"
proof -
  have v: "pl_filter (\<lambda>r. pl_eq (vehicle_id r) vid) q = filter (\<lambda>r. vehicle_id r = Some vid) q"
    for q by (simp add: pl_filter_def pl_eq_True)
  show ?thesis
    by (cases s; cases e)
      (simp_all add: v has_lon_lat_filter apply_time_filter traj_view_def
        traj_match_def [abs_def])
qed

lemma traj_view_located: "r \<in> set (fst (cap (traj_view td vid s e) n)) \<Longrightarrow> located r"
  using cap_subset [of "traj_view td vid s e" n]
  by (auto simp: traj_view_def traj_match_def)

lemma trajectory_unfold:
  "trajectory td vid s e n =
     (case map_err traj_coord (fst (cap (traj_view td vid s e) n)) of
        Inl err \<Rightarrow> Inl err
      | Inr coords \<Rightarrow>
          (case map_err traj_pt (fst (cap (traj_view td vid s e) n)) of
             Inl err \<Rightarrow> Inl err
           | Inr pts \<Rightarrow>
               Inr \<lparr>tr_vehicleId = vid, tr_truncated = snd (cap (traj_view td vid s e) n),
                    tr_pointCount = length coords, tr_coordinates = coords,
                    tr_points = pts\<rparr>))"
  unfolding trajectory_def Let_def trajectory_select
  by (simp add: case_prod_beta)

lemma trajectory_returns:
  assumes "\<forall>r\<in>set (fst (cap (traj_view td vid s e) n)). timestep_time r \<noteq> None"
  shows "\<exists>res. trajectory td vid s e n = Inr res \<and>
     tr_vehicleId res = vid \<and>
     tr_truncated res = snd (cap (traj_view td vid s e) n) \<and>
     tr_pointCount res = length (fst (cap (traj_view td vid s e) n)) \<and>
     list_all2 coord_of (tr_coordinates res) (fst (cap (traj_view td vid s e) n)) \<and>
     list_all2 traj_shows_row (tr_points res) (fst (cap (traj_view td vid s e) n))"
proof -
  let ?q = "fst (cap (traj_view td vid s e) n)"
  have "\<forall>r\<in>set ?q. \<exists>c. traj_coord r = Inr c \<and> coord_of c r"
  proof
    fix r
    assume "r \<in> set ?q"
    then have "located r" by (rule traj_view_located)
    then show "\<exists>c. traj_coord r = Inr c \<and> coord_of c r" by (rule traj_coord_located)
  qed
  then obtain cs where cs: "map_err traj_coord ?q = Inr cs" "list_all2 coord_of cs ?q"
    using map_err_total [of ?q traj_coord coord_of] by blast
  have "\<forall>r\<in>set ?q. \<exists>p. traj_pt r = Inr p \<and> traj_shows_row p r"
    using assms by (auto dest: traj_view_located intro: traj_pt_timed)
  then obtain ps where ps: "map_err traj_pt ?q = Inr ps" "list_all2 traj_shows_row ps ?q"
    using map_err_total [of ?q traj_pt traj_shows_row] by blast
  from cs(2) have "length cs = length ?q" by (rule list_all2_lengthD)
  with cs ps show ?thesis
    by (simp add: trajectory_unfold)
qed

lemma trajectory_raises:
  assumes "\<exists>r\<in>set (fst (cap (traj_view td vid s e) n)). timestep_time r = None"
  shows "trajectory td vid s e n = Inl TypeError"
proof -
  let ?q = "fst (cap (traj_view td vid s e) n)"
  have "\<forall>r\<in>set ?q. \<exists>c. traj_coord r = Inr c \<and> coord_of c r"
  proof
    fix r
    assume "r \<in> set ?q"
    then have "located r" by (rule traj_view_located)
    then show "\<exists>c. traj_coord r = Inr c \<and> coord_of c r" by (rule traj_coord_located)
  qed
  then obtain cs where cs: "map_err traj_coord ?q = Inr cs"
    using map_err_total [of ?q traj_coord coord_of] by blast
  have "\<exists>r\<in>set ?q. traj_pt r = Inl TypeError"
    using assms by (auto intro: traj_pt_null)
  moreover have "\<forall>r\<in>set ?q. traj_pt r = Inl TypeError \<or> (\<exists>p. traj_pt r = Inr p)"
  proof
    fix r
    assume "r \<in> set ?q"
    then have "located r" by (rule traj_view_located)
    then show "traj_pt r = Inl TypeError \<or> (\<exists>p. traj_pt r = Inr p)" by (rule traj_pt_cases)
  qed
  ultimately have "map_err traj_pt ?q = Inl TypeError"
    by (rule map_err_raises)
  with cs show ?thesis by (simp add: trajectory_unfold)
qed

lemma trajectory_Inr_timed:
  assumes "trajectory td vid s e n = Inr res"
  shows "\<forall>r\<in>set (fst (cap (traj_view td vid s e) n)). timestep_time r \<noteq> None"
proof (rule ccontr)
  assume "\<not> ?thesis"
  then have "\<exists>r\<in>set (fst (cap (traj_view td vid s e) n)). timestep_time r = None" by simp
  then have "trajectory td vid s e n = Inl TypeError" by (rule trajectory_raises)
  with assms show False by simp
qed

lemma cap_contract:
  "(n \<le> 0 \<longrightarrow> cap q n = (q, False)) \<and>
   (0 < n \<and> n < int (length q) \<longrightarrow> cap q n = (take (nat n) q, True)) \<and>
   (0 < n \<and> int (length q) \<le> n \<longrightarrow> cap q n = (q, False))"
  by (auto simp: cap_def)

subsection \<open>Truncation\<close>

text \<open>
  Claim C2. Both operations truncate alike. With \<open>maxPoints \<le> 0\<close> the view is returned
  whole and \<open>truncated\<close> is false; with \<open>maxPoints > 0\<close> and more rows than
  \<open>maxPoints\<close> the first \<open>maxPoints\<close> rows are returned, in their order, and
  \<open>truncated\<close> is true; with \<open>maxPoints > 0\<close> and at most \<open>maxPoints\<close> rows the view is
  returned whole and \<open>truncated\<close> is false. So \<open>truncated\<close> holds exactly when
  \<open>maxPoints > 0\<close> and the view has more than \<open>maxPoints\<close> rows. For \<^verbatim>\<open>query\<close> the view
  is the view the sampler returns for the matching rows, and the query returns exactly
  when the box is well formed and the sampler returns; for \<^verbatim>\<open>trajectory\<close> the view is
  the selected rows of the vehicle, and \<^verbatim>\<open>trajectory\<close> returns exactly when every row
  it keeps has a time.
\<close>

theorem truncation_contract:
  "(\<forall>V. bbox_ok bbox \<and>
        sample fdiv (filter (matches s e bbox vehicle_ids) (df td)) w = Inr V \<longrightarrow>
      (\<exists>ps hit st.
         query fdiv td s e bbox vehicle_ids n w = Inr (ps, hit, st) \<and>
         (n \<le> 0 \<longrightarrow> list_all2 shows_row ps V \<and> \<not> truncated st) \<and>
         (0 < n \<and> n < int (length V) \<longrightarrow>
            list_all2 shows_row ps (take (nat n) V) \<and> truncated st) \<and>
         (0 < n \<and> int (length V) \<le> n \<longrightarrow> list_all2 shows_row ps V \<and> \<not> truncated st) \<and>
         (truncated st \<longleftrightarrow> 0 < n \<and> n < int (length V)))) \<and>
   ((\<exists>res. query fdiv td s e bbox vehicle_ids n w = Inr res) \<longleftrightarrow>
      bbox_ok bbox \<and>
      (\<exists>V. sample fdiv (filter (matches s e bbox vehicle_ids) (df td)) w = Inr V)) \<and>
   (\<forall>res. trajectory td vid ts te n = Inr res \<longrightarrow>
      (n \<le> 0 \<longrightarrow>
         list_all2 traj_shows_row (tr_points res) (traj_view td vid ts te) \<and>
         \<not> tr_truncated res) \<and>
      (0 < n \<and> n < int (length (traj_view td vid ts te)) \<longrightarrow>
         list_all2 traj_shows_row (tr_points res) (take (nat n) (traj_view td vid ts te)) \<and>
         tr_truncated res) \<and>
      (0 < n \<and> int (length (traj_view td vid ts te)) \<le> n \<longrightarrow>
         list_all2 traj_shows_row (tr_points res) (traj_view td vid ts te) \<and>
         \<not> tr_truncated res) \<and>
      (tr_truncated res \<longleftrightarrow> 0 < n \<and> n < int (length (traj_view td vid ts te)))) \<and>
   ((\<exists>res. trajectory td vid ts te n = Inr res) \<longleftrightarrow>
      (\<forall>r\<in>set (fst (cap (traj_view td vid ts te) n)). timestep_time r \<noteq> None))"
proof (intro conjI)
  show "\<forall>V. bbox_ok bbox \<and>
        sample fdiv (filter (matches s e bbox vehicle_ids) (df td)) w = Inr V \<longrightarrow>
      (\<exists>ps hit st.
         query fdiv td s e bbox vehicle_ids n w = Inr (ps, hit, st) \<and>
         (n \<le> 0 \<longrightarrow> list_all2 shows_row ps V \<and> \<not> truncated st) \<and>
         (0 < n \<and> n < int (length V) \<longrightarrow>
            list_all2 shows_row ps (take (nat n) V) \<and> truncated st) \<and>
         (0 < n \<and> int (length V) \<le> n \<longrightarrow> list_all2 shows_row ps V \<and> \<not> truncated st) \<and>
         (truncated st \<longleftrightarrow> 0 < n \<and> n < int (length V)))"
  proof (intro allI impI)
    fix V
    assume a: "bbox_ok bbox \<and>
        sample fdiv (filter (matches s e bbox vehicle_ids) (df td)) w = Inr V"
    then have ok: "bbox_ok bbox"
      and V: "sample fdiv (filter (matches s e bbox vehicle_ids) (df td)) w = Inr V"
      by simp_all
    from query_eq [OF ok V, of n]
    obtain ps where ps: "list_all2 shows_row ps (fst (cap V n))"
      and q: "query fdiv td s e bbox vehicle_ids n w =
         Inr (ps, sort (map py_str (remdups (map vehicle_id V))),
              \<lparr>rows = length ps, vehicles = length (remdups (map vehicle_id V)),
               truncated = snd (cap V n), sample_every = w, max_points = n\<rparr>)"
      by blast
    show "\<exists>ps hit st.
         query fdiv td s e bbox vehicle_ids n w = Inr (ps, hit, st) \<and>
         (n \<le> 0 \<longrightarrow> list_all2 shows_row ps V \<and> \<not> truncated st) \<and>
         (0 < n \<and> n < int (length V) \<longrightarrow>
            list_all2 shows_row ps (take (nat n) V) \<and> truncated st) \<and>
         (0 < n \<and> int (length V) \<le> n \<longrightarrow> list_all2 shows_row ps V \<and> \<not> truncated st) \<and>
         (truncated st \<longleftrightarrow> 0 < n \<and> n < int (length V))"
      apply (rule exI [of _ ps])
      apply (rule exI [of _ "sort (map py_str (remdups (map vehicle_id V)))"])
      apply (rule exI [of _ "\<lparr>rows = length ps, vehicles = length (remdups (map vehicle_id V)),
               truncated = snd (cap V n), sample_every = w, max_points = n\<rparr>"])
      using ps q by (auto simp: cap_eq)
  qed
next
  show "(\<exists>res. query fdiv td s e bbox vehicle_ids n w = Inr res) \<longleftrightarrow>
      bbox_ok bbox \<and>
      (\<exists>V. sample fdiv (filter (matches s e bbox vehicle_ids) (df td)) w = Inr V)"
  proof
    assume "\<exists>res. query fdiv td s e bbox vehicle_ids n w = Inr res"
    then obtain res where "query fdiv td s e bbox vehicle_ids n w = Inr res" by blast
    then show "bbox_ok bbox \<and>
      (\<exists>V. sample fdiv (filter (matches s e bbox vehicle_ids) (df td)) w = Inr V)"
      using query_Inr_bbox_ok query_Inr_view by blast
  next
    assume "bbox_ok bbox \<and>
      (\<exists>V. sample fdiv (filter (matches s e bbox vehicle_ids) (df td)) w = Inr V)"
    then obtain V where ok: "bbox_ok bbox"
      and V: "sample fdiv (filter (matches s e bbox vehicle_ids) (df td)) w = Inr V"
      by blast
    from query_eq [OF ok V, of n]
    show "\<exists>res. query fdiv td s e bbox vehicle_ids n w = Inr res" by blast
  qed
next
  let ?T = "traj_view td vid ts te"
  show "\<forall>res. trajectory td vid ts te n = Inr res \<longrightarrow>
      (n \<le> 0 \<longrightarrow> list_all2 traj_shows_row (tr_points res) ?T \<and> \<not> tr_truncated res) \<and>
      (0 < n \<and> n < int (length ?T) \<longrightarrow>
         list_all2 traj_shows_row (tr_points res) (take (nat n) ?T) \<and> tr_truncated res) \<and>
      (0 < n \<and> int (length ?T) \<le> n \<longrightarrow>
         list_all2 traj_shows_row (tr_points res) ?T \<and> \<not> tr_truncated res) \<and>
      (tr_truncated res \<longleftrightarrow> 0 < n \<and> n < int (length ?T))"
  proof (intro allI impI)
    fix res
    assume r: "trajectory td vid ts te n = Inr res"
    then have "\<forall>r\<in>set (fst (cap ?T n)). timestep_time r \<noteq> None"
      by (rule trajectory_Inr_timed)
    from trajectory_returns [OF this] r
    have "tr_truncated res = snd (cap ?T n)"
      "list_all2 traj_shows_row (tr_points res) (fst (cap ?T n))"
      by auto
    then show "(n \<le> 0 \<longrightarrow> list_all2 traj_shows_row (tr_points res) ?T \<and> \<not> tr_truncated res) \<and>
      (0 < n \<and> n < int (length ?T) \<longrightarrow>
         list_all2 traj_shows_row (tr_points res) (take (nat n) ?T) \<and> tr_truncated res) \<and>
      (0 < n \<and> int (length ?T) \<le> n \<longrightarrow>
         list_all2 traj_shows_row (tr_points res) ?T \<and> \<not> tr_truncated res) \<and>
      (tr_truncated res \<longleftrightarrow> 0 < n \<and> n < int (length ?T))"
      by (auto simp: cap_eq)
  qed
next
  show "(\<exists>res. trajectory td vid ts te n = Inr res) \<longleftrightarrow>
      (\<forall>r\<in>set (fst (cap (traj_view td vid ts te) n)). timestep_time r \<noteq> None)"
    using trajectory_Inr_timed [of td vid ts te n] trajectory_returns [of td vid ts te n]
    by blast
qed

theorem truncation_contract_witness:
  "bbox_ok None \<and> float64_div (/) \<and>
   sample (/) (filter (matches 0 2 None None) (df scenario_A)) 1
     = Inr [mk_row 0 ''v1'' 10 50, mk_row 1 ''v1'' 12 50] \<and>
   (\<exists>ps hit st. query (/) scenario_A 0 2 None None 1 1 = Inr (ps, hit, st) \<and> truncated st \<and>
      list_all2 shows_row ps [mk_row 0 ''v1'' 10 50]) \<and>
   (\<exists>res. trajectory scenario_A ''v1'' None None 1 = Inr res \<and> tr_truncated res \<and>
      list_all2 traj_shows_row (tr_points res) [mk_row 0 ''v1'' 10 50])"
proof -
  have ok: "bbox_ok None"
    by (simp add: bbox_ok_def)
  have f: "float64_div (/)"
    by (simp add: float64_div_def)
  have V: "sample (/) (filter (matches 0 2 None None) (df scenario_A)) 1
     = Inr [mk_row 0 ''v1'' 10 50, mk_row 1 ''v1'' 12 50]"
    by code_simp
  have t: "traj_view scenario_A ''v1'' None None =
      [mk_row 0 ''v1'' 10 50, mk_row 0.5 ''v1'' 11 50,
       mk_row 1 ''v1'' 12 50, mk_row 1.5 ''v1'' 13 50]"
    by code_simp
  have "trajectory scenario_A ''v1'' None None 1 =
      Inr \<lparr>tr_vehicleId = ''v1'', tr_truncated = True, tr_pointCount = 1,
           tr_coordinates = [(10, 50)],
           tr_points = [\<lparr>pt_t = 0, pt_lon = 10, pt_lat = 50\<rparr>]\<rparr>"
    by code_simp
  then obtain res where r: "trajectory scenario_A ''v1'' None None 1 = Inr res"
    by blast
  note c = truncation_contract [where td = scenario_A and n = 1 and bbox = None and s = 0
      and e = 2 and vehicle_ids = None and w = 1 and fdiv = "(/)" and vid = "''v1''"
      and ts = None and te = None]
  from c [THEN conjunct1, THEN spec, THEN mp, OF conjI, OF ok V]
  have q: "\<exists>ps hit st. query (/) scenario_A 0 2 None None 1 1 = Inr (ps, hit, st) \<and>
      truncated st \<and> list_all2 shows_row ps [mk_row 0 ''v1'' 10 50]"
    by auto
  from c [THEN conjunct2, THEN conjunct2, THEN conjunct1, THEN spec, THEN mp, OF r]
  have "tr_truncated res \<and>
      list_all2 traj_shows_row (tr_points res) [mk_row 0 ''v1'' 10 50]"
    by (simp add: t)
  with r have tr: "\<exists>res. trajectory scenario_A ''v1'' None None 1 = Inr res \<and>
      tr_truncated res \<and>
      list_all2 traj_shows_row (tr_points res) [mk_row 0 ''v1'' 10 50]"
    by blast
  show ?thesis
    by (intro conjI ok f V q tr)
qed

subsection \<open>The time bounds of a trajectory\<close>

text \<open>
  On a table sorted by vehicle and time in which every row of the vehicle has a time,
  \<^verbatim>\<open>trajectory\<close> returns the selected rows in ascending time order: the rows of the
  vehicle inside the time range when both bounds are given, all rows of the vehicle when
  one bound or none is given.
\<close>

lemma traj_view_both:
  "traj_view td vid (Some a) (Some b) =
     filter (\<lambda>r. vehicle_id r = Some vid \<and> located r \<and> in_time a b r) (df td)"
  by (simp add: traj_view_def traj_match_def [abs_def])

lemma traj_view_one_or_none:
  "s = None \<or> e = None \<Longrightarrow>
   traj_view td vid s e = filter (\<lambda>r. vehicle_id r = Some vid \<and> located r) (df td)"
  by (cases s; cases e) (simp_all add: traj_view_def traj_match_def [abs_def])

lemma sorted_Pair: "sorted (map (Pair c) xs) \<longleftrightarrow> sorted xs"
  by (induction xs) auto

lemma sorted_Some: "sorted (map Some xs) \<longleftrightarrow> sorted xs"
  by (induction xs) auto

lemma traj_view_sorted:
  assumes "sorted (map row_key (df td))"
  shows "sorted (map timestep_time (traj_view td vid s e))"
proof -
  have "sorted (map row_key (traj_view td vid s e))"
    unfolding traj_view_def using assms by (rule sorted_filter)
  moreover have "map row_key (traj_view td vid s e)
      = map (Pair (Some vid)) (map timestep_time (traj_view td vid s e))"
    by (simp add: traj_view_def traj_match_def row_key_def)
  ultimately show ?thesis by (simp only: sorted_Pair)
qed

lemma cap_sorted: "sorted (map f q) \<Longrightarrow> sorted (map f (fst (cap q n)))"
  by (auto simp: cap_def take_map [symmetric] intro: sorted_wrt_take)

lemma traj_points_times:
  "list_all2 traj_shows_row ps q \<Longrightarrow> map timestep_time q = map Some (map pt_t ps)"
  by (induction rule: list_all2_induct) (auto simp: traj_shows_row_def)

lemma trajectory_policy:
  assumes t: "\<forall>r\<in>set (df td). vehicle_id r = Some vid \<longrightarrow> timestep_time r \<noteq> None"
    and srt: "sorted (map row_key (df td))"
  shows "\<exists>res. trajectory td vid s e n = Inr res \<and>
     list_all2 traj_shows_row (tr_points res) (fst (cap (traj_view td vid s e) n)) \<and>
     sorted (map pt_t (tr_points res)) \<and>
     (n \<le> 0 \<longrightarrow> \<not> tr_truncated res \<and> tr_pointCount res = length (traj_view td vid s e))"
proof -
  let ?T = "traj_view td vid s e"
  have "\<forall>r\<in>set (fst (cap ?T n)). timestep_time r \<noteq> None"
  proof
    fix r
    assume "r \<in> set (fst (cap ?T n))"
    with cap_subset [of ?T n] have "r \<in> set ?T" by blast
    then have "r \<in> set (df td)" "vehicle_id r = Some vid"
      by (simp_all add: traj_view_def traj_match_def)
    with t show "timestep_time r \<noteq> None" by blast
  qed
  from trajectory_returns [OF this]
  obtain res where res: "trajectory td vid s e n = Inr res"
    "tr_truncated res = snd (cap ?T n)"
    "tr_pointCount res = length (fst (cap ?T n))"
    "list_all2 traj_shows_row (tr_points res) (fst (cap ?T n))"
    by blast
  have "sorted (map timestep_time (fst (cap ?T n)))"
    using traj_view_sorted [OF srt] by (rule cap_sorted)
  then have "sorted (map pt_t (tr_points res))"
    by (simp only: traj_points_times [OF res(4)] sorted_Some)
  moreover have "n \<le> 0 \<longrightarrow> \<not> tr_truncated res \<and> tr_pointCount res = length ?T"
    using res(2,3) by (simp add: cap_eq)
  ultimately show ?thesis using res(1,4) by blast
qed

text \<open>
  Claim C8. \<^verbatim>\<open>trajectory\<close> applies the time filter only when both bounds are given, and
  with one bound or none all rows of the vehicle are to be returned, in ascending time
  order. The loader keeps a row whose time cell is empty, and \<^verbatim>\<open>trajectory\<close> converts
  the time of every row it keeps with \<^verbatim>\<open>float\<close>. For a vehicle with such a row the
  call without both bounds raises TypeError instead of returning the rows; with both
  bounds the time filter drops the row and the call returns.
\<close>

theorem trajectory_null_time:
  "TrafficData_init (sort_key row_key) ''fcd_geo.csv'' null_time_source = Inr null_time_table \<and>
   trajectory null_time_table ''v1'' None None 0 = Inl TypeError \<and>
   trajectory null_time_table ''v1'' (Some 0) None 0 = Inl TypeError \<and>
   trajectory null_time_table ''v1'' (Some 0) (Some 2) 0 =
     Inr \<lparr>tr_vehicleId = ''v1'', tr_truncated = False, tr_pointCount = 1,
          tr_coordinates = [(11, 50)],
          tr_points = [\<lparr>pt_t = 1, pt_lon = 11, pt_lat = 50\<rparr>]\<rparr>"
  by code_simp

subsection \<open>Loading and construction\<close>

lemma load_missing:
  "\<not> set required_columns \<subseteq> set (src_columns src) \<Longrightarrow> \<exists>msg. load srt src = Inl (ValueError msg)"
  by (auto simp: load_def required_columns_def)

lemma load_present:
  "set required_columns \<subseteq> set (src_columns src) \<Longrightarrow>
   load srt src = Inr (srt (filter located (src_rows src)))"
  by (simp add: load_def required_columns_def has_lon_lat_filter)

lemma load_Inr:
  "load srt src = Inr d \<Longrightarrow> d = srt (filter located (src_rows src))"
  by (auto simp: load_def has_lon_lat_filter split: if_splits)

lemma polars_sort_mset: "polars_sort srt \<Longrightarrow> mset (srt q) = mset q"
  by (simp add: polars_sort_def)

lemma polars_sort_set: "polars_sort srt \<Longrightarrow> set (srt q) = set q"
  using polars_sort_mset [of srt q] by (metis set_mset_mset)

lemma polars_sort_sorted: "polars_sort srt \<Longrightarrow> sorted (map row_key (srt q))"
  by (simp add: polars_sort_def)

lemma polars_sort_sort_key: "polars_sort (sort_key row_key)"
  by (simp add: polars_sort_def)

lemma init_Inr:
  assumes "TrafficData_init srt path src = Inr td"
  shows "\<exists>d lo hi. load srt src = Inr d \<and> col_min (map timestep_time d) = Some lo \<and>
     col_max (map timestep_time d) = Some hi \<and>
     td = \<lparr>csv_path = path, df = d, min_time = lo, max_time = hi, row_count = length d,
           vehicle_count = n_unique (map vehicle_id d)\<rparr>"
  using assms
  by (auto simp: TrafficData_init_def py_float_def split: sum.splits option.splits)

lemma map_filter_id_set: "set (List.map_filter id c) = {a. Some a \<in> set c}"
  by (induction c) (auto simp: List.map_filter_simps split: option.splits)

lemma col_min_Some:
  assumes "col_min c = Some lo"
  shows "Some lo \<in> set c \<and> (\<forall>a. Some a \<in> set c \<longrightarrow> lo \<le> a)"
proof -
  from assms obtain a as where l: "List.map_filter id c = a # as" and lo: "lo = fold min as a"
    by (auto simp: col_min_def split: list.splits)
  have m: "lo = Min (set (a # as))"
    by (simp only: lo Min.set_eq_fold)
  have s: "set (a # as) = {a. Some a \<in> set c}"
    using map_filter_id_set [of c] by (simp only: l)
  have "lo \<in> set (a # as)"
    unfolding m by (rule Min_in) simp_all
  moreover have "\<forall>x\<in>set (a # as). lo \<le> x"
    unfolding m by (intro ballI Min_le) simp_all
  ultimately show ?thesis unfolding s by blast
qed

lemma col_max_Some:
  assumes "col_max c = Some hi"
  shows "Some hi \<in> set c \<and> (\<forall>a. Some a \<in> set c \<longrightarrow> a \<le> hi)"
proof -
  from assms obtain a as where l: "List.map_filter id c = a # as" and hi: "hi = fold max as a"
    by (auto simp: col_max_def split: list.splits)
  have m: "hi = Max (set (a # as))"
    by (simp only: hi Max.set_eq_fold)
  have s: "set (a # as) = {a. Some a \<in> set c}"
    using map_filter_id_set [of c] by (simp only: l)
  have "hi \<in> set (a # as)"
    unfolding m by (rule Max_in) simp_all
  moreover have "\<forall>x\<in>set (a # as). x \<le> hi"
    unfolding m by (intro ballI Max_ge) simp_all
  ultimately show ?thesis unfolding s by blast
qed

lemma init_all_dropped:
  assumes c: "set required_columns \<subseteq> set (src_columns src)" and p: "polars_sort srt"
    and d: "\<forall>r\<in>set (src_rows src). vehicle_x r = None \<or> vehicle_y r = None"
  shows "TrafficData_init srt path src = Inl TypeError"
proof -
  have "filter located (src_rows src) = []"
    using d by (auto simp: filter_empty_conv located_def)
  then have "mset (srt (filter located (src_rows src))) = {#}"
    using polars_sort_mset [OF p] by simp
  then have "srt (filter located (src_rows src)) = []" by simp
  then show ?thesis
    by (simp add: TrafficData_init_def load_present [OF c] col_min_def List.map_filter_def
        py_float_def)
qed

lemma init_stats:
  assumes "TrafficData_init srt path src = Inr td"
  shows "1 \<le> row_count td \<and> row_count td = length (df td) \<and> min_time td \<le> max_time td \<and>
     Some (min_time td) \<in> timestep_time ` set (df td) \<and>
     Some (max_time td) \<in> timestep_time ` set (df td) \<and>
     (\<forall>r\<in>set (df td). \<forall>t. timestep_time r = Some t \<longrightarrow> min_time td \<le> t \<and> t \<le> max_time td)"
proof -
  from init_Inr [OF assms] obtain d lo hi where
    lo: "col_min (map timestep_time d) = Some lo" and hi: "col_max (map timestep_time d) = Some hi"
    and td: "td = \<lparr>csv_path = path, df = d, min_time = lo, max_time = hi, row_count = length d,
           vehicle_count = n_unique (map vehicle_id d)\<rparr>"
    by blast
  note a = col_min_Some [OF lo] and b = col_max_Some [OF hi]
  from a have "d \<noteq> []" by auto
  then have "1 \<le> length d" by (cases d) simp_all
  moreover from a b have "lo \<le> hi" by blast
  moreover have "\<forall>r\<in>set d. \<forall>t. timestep_time r = Some t \<longrightarrow> lo \<le> t \<and> t \<le> hi"
    using a b by (metis image_eqI set_map)
  ultimately show ?thesis using a b by (simp add: td)
qed

text \<open>
  Claim C9. When one of the four required columns is absent, loading raises the
  ValueError that names the missing columns, and so does the constructor, so that no
  table exists to be queried. When all four are present, loading returns the rows that
  have a longitude and a latitude and raises nothing; every row of a constructed table
  has both, and every point a later \<^verbatim>\<open>query\<close> or \<^verbatim>\<open>trajectory\<close> returns shows
  a row of the source that has both.
\<close>

theorem load_schema:
  "(\<not> set required_columns \<subseteq> set (src_columns src) \<longrightarrow>
      (\<exists>msg. load srt src = Inl (ValueError msg)) \<and>
      (\<exists>msg. TrafficData_init srt path src = Inl (ValueError msg))) \<and>
   (set required_columns \<subseteq> set (src_columns src) \<and> polars_sort srt \<longrightarrow>
      (\<exists>d. load srt src = Inr d \<and>
         mset d = mset (filter (\<lambda>r. vehicle_x r \<noteq> None \<and> vehicle_y r \<noteq> None)
                         (src_rows src)))) \<and>
   (polars_sort srt \<and> TrafficData_init srt path src = Inr td \<longrightarrow>
      (\<forall>r\<in>set (df td). vehicle_x r \<noteq> None \<and> vehicle_y r \<noteq> None \<and> r \<in> set (src_rows src)) \<and>
      (\<forall>ps hit st p. query fdiv td s e bbox vehicle_ids n w = Inr (ps, hit, st) \<and> p \<in> set ps \<longrightarrow>
         (\<exists>r\<in>set (src_rows src).
            vehicle_x r \<noteq> None \<and> vehicle_y r \<noteq> None \<and> shows_row p r)) \<and>
      (\<forall>res p. trajectory td vid ts te n = Inr res \<and> p \<in> set (tr_points res) \<longrightarrow>
         (\<exists>r\<in>set (src_rows src).
            vehicle_x r \<noteq> None \<and> vehicle_y r \<noteq> None \<and> traj_shows_row p r)))"
proof (intro conjI impI)
  assume m: "\<not> set required_columns \<subseteq> set (src_columns src)"
  then show "\<exists>msg. load srt src = Inl (ValueError msg)" by (rule load_missing)
  then show "\<exists>msg. TrafficData_init srt path src = Inl (ValueError msg)"
    by (auto simp: TrafficData_init_def)
next
  assume "set required_columns \<subseteq> set (src_columns src) \<and> polars_sort srt"
  then show "\<exists>d. load srt src = Inr d \<and>
         mset d = mset (filter (\<lambda>r. vehicle_x r \<noteq> None \<and> vehicle_y r \<noteq> None)
                         (src_rows src))"
    by (simp add: load_present polars_sort_mset located_def [abs_def])
next
  assume a: "polars_sort srt \<and> TrafficData_init srt path src = Inr td"
  then have p: "polars_sort srt" and i: "TrafficData_init srt path src = Inr td" by simp_all
  from init_Inr [OF i] obtain d where "load srt src = Inr d" "df td = d" by auto
  then have "df td = srt (filter located (src_rows src))" using load_Inr by blast
  then have rows: "set (df td) = {r \<in> set (src_rows src). located r}"
    using polars_sort_set [OF p] by simp
  then show df: "\<forall>r\<in>set (df td). vehicle_x r \<noteq> None \<and> vehicle_y r \<noteq> None \<and> r \<in> set (src_rows src)"
    by (simp add: located_def)
  show "\<forall>ps hit st p. query fdiv td s e bbox vehicle_ids n w = Inr (ps, hit, st) \<and> p \<in> set ps \<longrightarrow>
         (\<exists>r\<in>set (src_rows src).
            vehicle_x r \<noteq> None \<and> vehicle_y r \<noteq> None \<and> shows_row p r)"
  proof (intro allI impI)
    fix ps hit st p
    assume "query fdiv td s e bbox vehicle_ids n w = Inr (ps, hit, st) \<and> p \<in> set ps"
    then obtain r where "r \<in> set (df td)" "shows_row p r"
      using query_point_row [of fdiv td s e bbox vehicle_ids n w ps hit st p] by blast
    with df show "\<exists>r\<in>set (src_rows src).
            vehicle_x r \<noteq> None \<and> vehicle_y r \<noteq> None \<and> shows_row p r"
      by blast
  qed
  show "\<forall>res p. trajectory td vid ts te n = Inr res \<and> p \<in> set (tr_points res) \<longrightarrow>
         (\<exists>r\<in>set (src_rows src).
            vehicle_x r \<noteq> None \<and> vehicle_y r \<noteq> None \<and> traj_shows_row p r)"
  proof (intro allI impI)
    fix res p
    assume a: "trajectory td vid ts te n = Inr res \<and> p \<in> set (tr_points res)"
    then have "\<forall>r\<in>set (fst (cap (traj_view td vid ts te) n)). timestep_time r \<noteq> None"
      using trajectory_Inr_timed by blast
    from trajectory_returns [OF this] a
    have "list_all2 traj_shows_row (tr_points res) (fst (cap (traj_view td vid ts te) n))"
      by auto
    from list_all2_left_set [OF this] a
    obtain r where r: "r \<in> set (fst (cap (traj_view td vid ts te) n))" "traj_shows_row p r"
      by blast
    with cap_subset [of "traj_view td vid ts te" n] have "r \<in> set (df td)"
      by (auto simp: traj_view_def)
    with df r show "\<exists>r\<in>set (src_rows src).
            vehicle_x r \<noteq> None \<and> vehicle_y r \<noteq> None \<and> traj_shows_row p r"
      by blast
  qed
qed

theorem load_schema_witness:
  "\<not> set required_columns \<subseteq> set (src_columns scenario_E) \<and>
   (\<exists>msg. TrafficData_init (sort_key row_key) ''fcd_geo.csv'' scenario_E = Inl (ValueError msg)) \<and>
   set required_columns \<subseteq> set (src_columns gap_source) \<and>
   polars_sort (sort_key row_key) \<and>
   (\<exists>d. load (sort_key row_key) gap_source = Inr d \<and>
      mset d = mset [mk_row 0 ''v2'' 11 51, mk_row 0 ''v1'' 10 50])"
proof -
  have c1: "\<not> set required_columns \<subseteq> set (src_columns scenario_E)"
    by (simp add: required_columns_def scenario_E_def)
  have c2: "set required_columns \<subseteq> set (src_columns gap_source)"
    by (simp add: gap_source_def)
  have f: "filter (\<lambda>r. vehicle_x r \<noteq> None \<and> vehicle_y r \<noteq> None) (src_rows gap_source)
      = [mk_row 0 ''v2'' 11 51, mk_row 0 ''v1'' 10 50]"
    by (simp add: gap_source_def mk_row_def)
  from load_schema [where src = scenario_E and srt = "sort_key row_key"
      and path = "''fcd_geo.csv''"] c1
  have "\<exists>msg. TrafficData_init (sort_key row_key) ''fcd_geo.csv'' scenario_E = Inl (ValueError msg)"
    by blast
  moreover from load_schema [where src = gap_source and srt = "sort_key row_key"] c2
    polars_sort_sort_key
  have "\<exists>d. load (sort_key row_key) gap_source = Inr d \<and>
      mset d = mset [mk_row 0 ''v2'' 11 51, mk_row 0 ''v1'' 10 50]"
    unfolding f by blast
  ultimately show ?thesis using c1 c2 polars_sort_sort_key by blast
qed

text \<open>
  Claim C10. From a source with the four columns in which every row lacks a longitude
  or a latitude, or which has no row, the constructor raises TypeError: the minimum of
  the empty time column is null and \<^verbatim>\<open>float(None)\<close> raises. A constructed table
  therefore has at least one row, and its \<open>minTime\<close> and \<open>maxTime\<close> are times of its
  rows, bound the times of all its rows and satisfy \<open>minTime \<le> maxTime\<close>.
\<close>

theorem init_nonempty:
  "(set required_columns \<subseteq> set (src_columns src) \<and> polars_sort srt \<and>
      (\<forall>r\<in>set (src_rows src). vehicle_x r = None \<or> vehicle_y r = None) \<longrightarrow>
        TrafficData_init srt path src = Inl TypeError) \<and>
   (TrafficData_init srt path src = Inr td \<longrightarrow>
      1 \<le> row_count td \<and> row_count td = length (df td) \<and> min_time td \<le> max_time td \<and>
      Some (min_time td) \<in> timestep_time ` set (df td) \<and>
      Some (max_time td) \<in> timestep_time ` set (df td) \<and>
      (\<forall>r\<in>set (df td). \<forall>t. timestep_time r = Some t \<longrightarrow>
         min_time td \<le> t \<and> t \<le> max_time td))"
proof (intro conjI impI)
  assume "set required_columns \<subseteq> set (src_columns src) \<and> polars_sort srt \<and>
      (\<forall>r\<in>set (src_rows src). vehicle_x r = None \<or> vehicle_y r = None)"
  then show "TrafficData_init srt path src = Inl TypeError"
    using init_all_dropped by blast
next
  assume i: "TrafficData_init srt path src = Inr td"
  note s = init_stats [OF i]
  from s show "1 \<le> row_count td" by blast
  from s show "row_count td = length (df td)" by blast
  from s show "min_time td \<le> max_time td" by blast
  from s show "Some (min_time td) \<in> timestep_time ` set (df td)" by blast
  from s show "Some (max_time td) \<in> timestep_time ` set (df td)" by blast
  from s show "\<forall>r\<in>set (df td). \<forall>t. timestep_time r = Some t \<longrightarrow>
         min_time td \<le> t \<and> t \<le> max_time td" by blast
qed

theorem init_nonempty_witness:
  "set required_columns \<subseteq> set (src_columns idle_source) \<and>
   polars_sort (sort_key row_key) \<and>
   filter located (src_rows idle_source) = [] \<and>
   TrafficData_init (sort_key row_key) ''fcd_geo.csv'' idle_source = Inl TypeError \<and>
   TrafficData_init (sort_key row_key) ''fcd_geo.csv'' gap_source =
     Inr (mk_table [mk_row 0 ''v1'' 10 50, mk_row 0 ''v2'' 11 51] 0 0) \<and>
   1 \<le> row_count (mk_table [mk_row 0 ''v1'' 10 50, mk_row 0 ''v2'' 11 51] 0 0)"
proof -
  have c: "set required_columns \<subseteq> set (src_columns idle_source)"
    by (simp add: idle_source_def)
  have d: "\<forall>r\<in>set (src_rows idle_source). vehicle_x r = None \<or> vehicle_y r = None"
    by (simp add: idle_source_def)
  have g: "TrafficData_init (sort_key row_key) ''fcd_geo.csv'' gap_source =
     Inr (mk_table [mk_row 0 ''v1'' 10 50, mk_row 0 ''v2'' 11 51] 0 0)"
    by code_simp
  from init_nonempty [where src = idle_source and srt = "sort_key row_key"
      and path = "''fcd_geo.csv''"] c d polars_sort_sort_key
  have "TrafficData_init (sort_key row_key) ''fcd_geo.csv'' idle_source = Inl TypeError"
    by blast
  moreover from init_nonempty [where src = gap_source and srt = "sort_key row_key"
      and path = "''fcd_geo.csv''"
      and td = "mk_table [mk_row 0 ''v1'' 10 50, mk_row 0 ''v2'' 11 51] 0 0"] g
  have "1 \<le> row_count (mk_table [mk_row 0 ''v1'' 10 50, mk_row 0 ''v2'' 11 51] 0 0)"
    by blast
  moreover have "filter located (src_rows idle_source) = []"
    by (simp add: idle_source_def located_def)
  ultimately show ?thesis using c g polars_sort_sort_key by blast
qed

end
